theory Spec2Isabelle
  imports Main "HOL-Library.Word" "HOL-Library.AList" "HOL-Library.Sublist"
begin

section \<open>The process tracer orchestrator (package ebpf)\<close>

text \<open>
  The orchestrator talks to collaborators whose code lives elsewhere: the tracers behind the
  \<open>Tracer\<close> interface, the kernel loader, the attachment routines of the instrumenter, the
  release handles and the logger. Each call to a collaborator is recorded, with its outcome, in
  a trace; the outcome is chosen by an environment that sees the whole world (the process-wide
  flag and the trace so far), so that nothing is assumed about what a collaborator answers.
  A Go \<open>error\<close> is its message, \<open>nil\<close> is \<open>None\<close>. The mutex \<open>loadMux\<close> only keeps
  concurrent loads apart and has no counterpart in this sequential model.

  A logger that is set accepts every message. The logger \<open>pt.log\<close> of the tracer is a field
  that \<open>NewProcessTracer\<close> leaves \<open>nil\<close> and that only \<open>Run\<close> sets; a method called on a \<open>nil\<close>
  logger panics with a nil pointer dereference. A panic ends the function where it stands and,
  as nothing recovers it, the process.
\<close>

type_synonym error = string
type_synonym ino = "64 word"
type_synonym pid = "32 word"
type_synonym tracer = nat
type_synonym closer = nat

record FileInfo =
  CmdExePath :: string
  Pid :: pid
  Ino :: ino

text \<open>
  A value of Go's \<open>any\<close> as it occurs in the tables of field offsets and of constants:
  \<open>nil\<close>, a \<open>uint32\<close> or a \<open>uint64\<close>.
\<close>

datatype any = nil | Uint32 "32 word" | Uint64 "64 word"

text \<open>\<open>goexec.Offsets\<close>: of its fields the tracer's constants read the map \<open>Field\<close> only.\<close>

record Offsets =
  FieldOffsets :: "string \<rightharpoonup> any"

record Instrumentable =
  FileInfo :: FileInfo
  Offsets :: "Offsets option"

datatype level = Debug | Info | Warn

text \<open>\<open>ptlog().With("type", pt.Type)\<close>: a logger and the type it is labelled with.\<close>

datatype logger = Logger nat

datatype panic = NilPointerDereference

datatype call =
    CLoad tracer
  | CRewriteConstants tracer
  | CLoadAndAssign tracer
  | CSetupTailCalls tracer
  | CSetupTC tracer
  | Ckprobes tracer
  | Ctracepoints tracer
  | Csockfilters tracer
  | CRegisterOffsets tracer FileInfo
  | Cgoprobes tracer
  | Cuprobes pid tracer
  | CClose closer
  | CUnlinkInstrumentedLib tracer ino
  | CRun tracer
  | CLog level string
  | CprintVerifierErrorInfo error
  | CFlushKernelSpec

text \<open>
  \<open>IntegrityModeOverride\<close> is the package variable \<open>common.IntegrityModeOverride\<close>.
  \<open>panicked\<close> holds the panic the process has died of, if it has.
\<close>

record world =
  IntegrityModeOverride :: bool
  trace :: "(call \<times> error option) list"
  panicked :: "panic option"

text \<open>A function that may panic returns the panic and the world at that moment, or its result.\<close>

type_synonym 'a result = "panic \<times> world + 'a"

text \<open>
  \<open>closables\<close> is the slice \<open>[]io.Closer\<close>. \<open>modules\<close> is the Go set
  \<open>map[uint64]struct{}\<close>: the list holds its keys in the order in which one \<open>range\<close> over
  the map visits them (Go leaves that order open), so it is a list without repetitions.
\<close>

record instrumenter =
  offsets :: "Offsets option"
  exe :: "nat option"
  closables :: "closer list"
  modules :: "ino list"

record ProcessTracer =
  Programs :: "tracer list"
  PinPath :: string
  SystemWide :: bool
  Type :: nat
  Instrumentables :: "ino \<rightharpoonup> instrumenter"
  log :: "logger option"

text \<open>
  \<open>NewProcessTracer\<close>: \<open>pinPath\<close> is what \<open>BuildPinPath\<close> makes of the configuration, the join of
  its \<open>BpfBaseDir\<close> and \<open>BpfPath\<close>; \<open>systemWide\<close> is \<open>cfg.Discovery.SystemWide\<close>. The field
  \<open>log\<close> is not among those the constructor sets.
\<close>

definition NewProcessTracer :: "string \<Rightarrow> bool \<Rightarrow> nat \<Rightarrow> tracer list \<Rightarrow> ProcessTracer" where
  "NewProcessTracer pinPath systemWide tracerType programs =
     \<lparr>Programs = programs, PinPath = pinPath, SystemWide = systemWide, Type = tracerType,
      Instrumentables = Map.empty, log = None\<rparr>"

text \<open>The module lists of the registered instrumenters are without repetitions.\<close>

definition modules_distinct :: "ProcessTracer \<Rightarrow> bool" where
  "modules_distinct pt = (\<forall>i \<in> ran (Instrumentables pt). distinct (modules i))"

text \<open>
  \<open>respond\<close> answers a call with an error or with \<open>nil\<close>. \<open>attached\<close> gives, for an
  attachment routine of the instrumenter (\<open>kprobes\<close>, \<open>tracepoints\<close>, \<open>sockfilters\<close>,
  \<open>goprobes\<close>, \<open>uprobes\<close>, defined in another file of the package), the release handles
  it appends to \<open>closables\<close> and the module inodes it records in \<open>modules\<close> before it returns,
  with or without an error.
\<close>

record env =
  respond :: "world \<Rightarrow> call \<Rightarrow> error option"
  attached :: "world \<Rightarrow> instrumenter \<Rightarrow> call \<Rightarrow> closer list \<times> ino list"

definition perform :: "env \<Rightarrow> call \<Rightarrow> world \<Rightarrow> error option \<times> world" where
  "perform E c w = (let r = respond E w c in (r, w\<lparr>trace := trace w @ [(c, r)]\<rparr>))"

text \<open>A call that returns nothing.\<close>

definition void :: "call \<Rightarrow> world \<Rightarrow> world" where
  "void c w = w\<lparr>trace := trace w @ [(c, None)]\<rparr>"

text \<open>
  A message to a logger that is set: the local \<open>plog\<close> of \<open>loadTracers\<close> and of
  \<open>RunUtilityTracer\<close>, the \<open>p.log\<close> of the Go tracer.
\<close>

definition plog :: "level \<Rightarrow> string \<Rightarrow> world \<Rightarrow> world" where
  "plog l msg w = void (CLog l msg) w"

text \<open>A message to \<open>pt.log\<close>, which may be \<open>nil\<close>.\<close>

definition pt_log :: "ProcessTracer \<Rightarrow> level \<Rightarrow> string \<Rightarrow> world \<Rightarrow> world result" where
  "pt_log pt l msg w =
     (case log pt of
        None \<Rightarrow> Inl (NilPointerDereference, w)
      | Some lg \<Rightarrow> Inr (void (CLog l msg) w))"

text \<open>The world in which a function has ended, by a panic or not.\<close>

definition world_of :: "('a \<times> world) result \<Rightarrow> world" where
  "world_of r = (case r of Inl pw \<Rightarrow> snd pw | Inr aw \<Rightarrow> snd aw)"

definition world_at :: "world result \<Rightarrow> world" where
  "world_at r = (case r of Inl pw \<Rightarrow> snd pw | Inr w \<Rightarrow> w)"

definition attach :: "env \<Rightarrow> call \<Rightarrow> instrumenter \<times> world \<Rightarrow> error option \<times> instrumenter \<times> world" where
  "attach E c iw =
     (case iw of (i, w) \<Rightarrow>
        (case attached E w i c of (hs, ms) \<Rightarrow>
           (case perform E c w of (r, w') \<Rightarrow>
              (r, i\<lparr>closables := closables i @ hs, modules := fold List.insert ms (modules i)\<rparr>, w'))))"

text \<open>The calls a function has made: what it added to the trace.\<close>

definition emitted :: "world \<Rightarrow> world \<Rightarrow> (call \<times> error option) list" where
  "emitted w w' = drop (length (trace w)) (trace w')"

definition calls :: "world \<Rightarrow> world \<Rightarrow> call list" where
  "calls w w' = map fst (emitted w w')"

fun isClose :: "call \<Rightarrow> bool" where
  "isClose (CClose c) = True"
| "isClose _ = False"

fun isLog :: "call \<Rightarrow> bool" where
  "isLog (CLog l m) = True"
| "isLog _ = False"

subsection \<open>loadSpec and loadTracers\<close>

text \<open>\<open>strings.Contains\<close>\<close>

fun Contains :: "string \<Rightarrow> string \<Rightarrow> bool" where
  "Contains [] substr = (substr = [])"
| "Contains (c # s) substr = (take (length substr) (c # s) = substr \<or> Contains s substr)"

definition missing_helper :: string where
  "missing_helper = ''unknown func bpf_probe_write_user''"

definition missing_helper_warning :: string where
  "missing_helper_warning =
     ''Failed to enable distributed tracing context-propagation on a Linux Kernel without write memory support. '' @
     ''To avoid seeing this message, please ensure you have correctly mounted /sys/kernel/security. '' @
     ''and ensure beyla has the SYS_ADMIN linux capability'' @
     ''For more details set BEYLA_LOG_LEVEL=DEBUG.''"

text \<open>
  \<open>loadSpec\<close>: \<open>p.Load()\<close>, then \<open>spec.RewriteConstants(p.Constants())\<close>; each error is wrapped
  by \<open>fmt.Errorf\<close>.
\<close>

definition loadSpec :: "env \<Rightarrow> tracer \<Rightarrow> world \<Rightarrow> error option \<times> world" where
  "loadSpec E p w =
     (case perform E (CLoad p) w of
        (Some err, w1) \<Rightarrow> (Some (''loading eBPF program: '' @ err), w1)
      | (None, w1) \<Rightarrow>
          (case perform E (CRewriteConstants p) w1 of
             (Some err, w2) \<Rightarrow> (Some (''rewriting BPF constants definition: '' @ err), w2)
           | (None, w2) \<Rightarrow> (None, w2)))"

text \<open>
  Lines 96 to 121 of \<open>loadTracers\<close>: \<open>spec.LoadAndAssign\<close>, and on an error that names the
  missing helper the warning, the write of the flag, a second \<open>loadSpec\<close> and, when that one
  succeeds, a second \<open>LoadAndAssign\<close>. Whatever error is left is printed and returned wrapped.
\<close>

definition loadAndAssign :: "env \<Rightarrow> tracer \<Rightarrow> world \<Rightarrow> error option \<times> world" where
  "loadAndAssign E p w =
     (case perform E (CLoadAndAssign p) w of
        (None, w1) \<Rightarrow> (None, w1)
      | (Some err, w1) \<Rightarrow>
          (case (if Contains err missing_helper
                 then (case loadSpec E p ((plog Warn missing_helper_warning w1)\<lparr>IntegrityModeOverride := True\<rparr>) of
                         (None, w3) \<Rightarrow> perform E (CLoadAndAssign p) w3
                       | (Some err', w3) \<Rightarrow> (Some err', w3))
                 else (Some err, w1)) of
             (Some err2, w4) \<Rightarrow>
               (Some (''loading and assigning BPF objects: '' @ err2), void (CprintVerifierErrorInfo err2) w4)
           | (None, w4) \<Rightarrow> (None, w4)))"

text \<open>Lines 92 to 121: the load of one program.\<close>

definition loadProgram :: "env \<Rightarrow> tracer \<Rightarrow> world \<Rightarrow> error option \<times> world" where
  "loadProgram E p w =
     (case loadSpec E p w of
        (Some err, w1) \<Rightarrow> (Some err, w1)
      | (None, w1) \<Rightarrow> loadAndAssign E p w1)"

text \<open>An attachment routine whose error is printed and returned.\<close>

definition attach_or_print :: "env \<Rightarrow> call \<Rightarrow> instrumenter \<times> world \<Rightarrow> error option \<times> instrumenter \<times> world" where
  "attach_or_print E c iw =
     (case attach E c iw of
        (Some err, i', w') \<Rightarrow> (Some err, i', void (CprintVerifierErrorInfo err) w')
      | (None, i', w') \<Rightarrow> (None, i', w'))"

text \<open>Lines 123 to 145: tail calls, traffic control, kprobes, tracepoints, socket filters.\<close>

definition attachGlobal :: "env \<Rightarrow> tracer \<Rightarrow> instrumenter \<times> world \<Rightarrow> error option \<times> instrumenter \<times> world" where
  "attachGlobal E p iw =
     (case iw of (i, w) \<Rightarrow>
        (case attach_or_print E (Ckprobes p) (i, void (CSetupTC p) (void (CSetupTailCalls p) w)) of
           (Some err, i1, w1) \<Rightarrow> (Some err, i1, w1)
         | (None, i1, w1) \<Rightarrow>
             (case attach_or_print E (Ctracepoints p) (i1, w1) of
                (Some err, i2, w2) \<Rightarrow> (Some err, i2, w2)
              | (None, i2, w2) \<Rightarrow> attach_or_print E (Csockfilters p) (i2, w2))))"

text \<open>\<^verbatim>\<open>for _, p := range pt.Programs { ... }\<close> of \<open>loadTracers\<close>\<close>

fun loadTracers_loop :: "env \<Rightarrow> tracer list \<Rightarrow> instrumenter \<times> world \<Rightarrow> error option \<times> instrumenter \<times> world" where
  "loadTracers_loop E [] iw = (None, iw)"
| "loadTracers_loop E (p # ps) iw =
     (case loadProgram E p (plog Debug ''loading eBPF program'' (snd iw)) of
        (Some err, w1) \<Rightarrow> (Some err, fst iw, w1)
      | (None, w1) \<Rightarrow>
          (case attachGlobal E p (fst iw, w1) of
             (Some err, i2, w2) \<Rightarrow> (Some err, i2, w2)
           | (None, i2, w2) \<Rightarrow> loadTracers_loop E ps (i2, w2)))"

definition dummy_instrumenter :: instrumenter where
  "dummy_instrumenter = \<lparr>offsets = None, exe = None, closables = [], modules = []\<rparr>"

definition loadTracers :: "env \<Rightarrow> ProcessTracer \<Rightarrow> world \<Rightarrow> error option \<times> world" where
  "loadTracers E pt w =
     (case loadTracers_loop E (Programs pt) (dummy_instrumenter, w) of
        (Some err, i, w') \<Rightarrow> (Some err, w')
      | (None, i, w') \<Rightarrow> (None, void CFlushKernelSpec w'))"

definition Init :: "env \<Rightarrow> ProcessTracer \<Rightarrow> world \<Rightarrow> error option \<times> world" where
  "Init E pt w = loadTracers E pt w"

subsection \<open>NewExecutableInstance and NewExecutable\<close>

text \<open>\<^verbatim>\<open>for _, p := range pt.Programs { if err := i.uprobes(pid, p); err != nil { ... } }\<close>\<close>

fun uprobes_loop :: "env \<Rightarrow> pid \<Rightarrow> tracer list \<Rightarrow> instrumenter \<times> world \<Rightarrow> error option \<times> instrumenter \<times> world" where
  "uprobes_loop E pd [] iw = (None, iw)"
| "uprobes_loop E pd (p # ps) iw =
     (case attach_or_print E (Cuprobes pd p) iw of
        (Some err, i', w') \<Rightarrow> (Some err, i', w')
      | (None, i', w') \<Rightarrow> uprobes_loop E pd ps (i', w'))"

text \<open>
  The map holds pointers, so what \<open>uprobes\<close> appends to the instrumenter of a known inode is
  seen through the map, also when the loop stops on an error.
\<close>

definition NewExecutableInstance ::
  "env \<Rightarrow> Instrumentable \<Rightarrow> ProcessTracer \<times> world \<Rightarrow> (error option \<times> ProcessTracer \<times> world) result" where
  "NewExecutableInstance E ie ptw =
     (case ptw of (pt, w) \<Rightarrow>
        (case Instrumentables pt (Ino (FileInfo ie)) of
           Some i \<Rightarrow>
             (case uprobes_loop E (Pid (FileInfo ie)) (Programs pt) (i, w) of
                (r, i', w') \<Rightarrow>
                  Inr (r, pt\<lparr>Instrumentables := (Instrumentables pt)(Ino (FileInfo ie) \<mapsto> i')\<rparr>, w'))
         | None \<Rightarrow>
             (case pt_log pt Warn ''Attempted to update non-existent tracer'' w of
                Inl pw \<Rightarrow> Inl pw
              | Inr w' \<Rightarrow> Inr (None, pt, w'))))"

text \<open>\<^verbatim>\<open>for _, p := range pt.Programs { p.RegisterOffsets(...); i.goprobes(p); i.uprobes(pid, p) }\<close>\<close>

fun NewExecutable_loop ::
  "env \<Rightarrow> Instrumentable \<Rightarrow> tracer list \<Rightarrow> instrumenter \<times> world \<Rightarrow> error option \<times> instrumenter \<times> world" where
  "NewExecutable_loop E ie [] iw = (None, iw)"
| "NewExecutable_loop E ie (p # ps) iw =
     (case attach_or_print E (Cgoprobes p) (fst iw, void (CRegisterOffsets p (FileInfo ie)) (snd iw)) of
        (Some err, i1, w1) \<Rightarrow> (Some err, i1, w1)
      | (None, i1, w1) \<Rightarrow>
          (case attach_or_print E (Cuprobes (Pid (FileInfo ie)) p) (i1, w1) of
             (Some err, i2, w2) \<Rightarrow> (Some err, i2, w2)
           | (None, i2, w2) \<Rightarrow> NewExecutable_loop E ie ps (i2, w2)))"

text \<open>
  The instrumenter is a local variable; it is stored in \<open>pt.Instrumentables\<close> by the last
  statement only, which an early \<open>return err\<close> does not reach.
\<close>

definition NewExecutable ::
  "env \<Rightarrow> nat \<Rightarrow> Instrumentable \<Rightarrow> ProcessTracer \<times> world \<Rightarrow> error option \<times> ProcessTracer \<times> world" where
  "NewExecutable E ex ie ptw =
     (case ptw of (pt, w) \<Rightarrow>
        (case NewExecutable_loop E ie (Programs pt)
                (\<lparr>offsets = Offsets ie, exe = Some ex, closables = [], modules = []\<rparr>, w) of
           (Some err, i, w') \<Rightarrow> (Some err, pt, w')
         | (None, i, w') \<Rightarrow>
             (None, pt\<lparr>Instrumentables := (Instrumentables pt)(Ino (FileInfo ie) \<mapsto> i)\<rparr>, w')))"

subsection \<open>UnlinkExecutable\<close>

text \<open>
  \<^verbatim>\<open>for _, c := range i.closables { if err := c.Close(); err != nil { pt.log.Debug(...) } }\<close>
  A panic of \<open>pt.log.Debug\<close> ends the loop.
\<close>

fun close_closables :: "env \<Rightarrow> ProcessTracer \<Rightarrow> closer list \<Rightarrow> world \<Rightarrow> world result" where
  "close_closables E pt [] w = Inr w"
| "close_closables E pt (c # cs) w =
     (case perform E (CClose c) w of
        (Some err, w') \<Rightarrow>
          (case pt_log pt Debug ''Unable to close on unlink'' w' of
             Inl pw \<Rightarrow> Inl pw
           | Inr w'' \<Rightarrow> close_closables E pt cs w'')
      | (None, w') \<Rightarrow> close_closables E pt cs w')"

text \<open>\<^verbatim>\<open>for _, p := range pt.Programs { p.UnlinkInstrumentedLib(ino) }\<close>\<close>

fun unlink_lib :: "ino \<Rightarrow> tracer list \<Rightarrow> world \<Rightarrow> world" where
  "unlink_lib m [] w = w"
| "unlink_lib m (p # ps) w = unlink_lib m ps (void (CUnlinkInstrumentedLib p m) w)"

text \<open>\<^verbatim>\<open>for ino := range i.modules { ... }\<close>\<close>

fun unlink_modules :: "tracer list \<Rightarrow> ino list \<Rightarrow> world \<Rightarrow> world" where
  "unlink_modules ps [] w = w"
| "unlink_modules ps (m # ms) w = unlink_modules ps ms (unlink_lib m ps w)"

text \<open>
  A panic in the loop of releases leaves the loop over the modules and the \<open>delete\<close> undone:
  the tracer is as it was.
\<close>

definition UnlinkExecutable ::
  "env \<Rightarrow> FileInfo \<Rightarrow> ProcessTracer \<times> world \<Rightarrow> (ProcessTracer \<times> world) result" where
  "UnlinkExecutable E info ptw =
     (case ptw of (pt, w) \<Rightarrow>
        (case Instrumentables pt (Ino info) of
           Some i \<Rightarrow>
             (case close_closables E pt (closables i) w of
                Inl pw \<Rightarrow> Inl pw
              | Inr w' \<Rightarrow>
                  Inr (pt\<lparr>Instrumentables := (Instrumentables pt)(Ino info := None)\<rparr>,
                       unlink_modules (Programs pt) (modules i) w'))
         | None \<Rightarrow>
             (case pt_log pt Warn ''Unable to find executable to unlink'' w of
                Inl pw \<Rightarrow> Inl pw
              | Inr w' \<Rightarrow> Inr (pt, w'))))"

definition unknown_warning :: "call \<times> error option" where
  "unknown_warning = (CLog Warn ''Unable to find executable to unlink'', None)"

subsection \<open>Run and RunUtilityTracer\<close>

text \<open>
  \<open>Run\<close> sets \<open>pt.log\<close>, logs through it, starts one goroutine per program and returns.
\<close>

definition Run :: "ProcessTracer \<times> world \<Rightarrow> (ProcessTracer \<times> world) result" where
  "Run ptw =
     (case ptw of (pt, w) \<Rightarrow>
        (let pt' = pt\<lparr>log := Some (Logger (Type pt))\<rparr>
         in case pt_log pt' Debug ''starting process tracer'' w of
              Inl pw \<Rightarrow> Inl pw
            | Inr w' \<Rightarrow> Inr (pt', fold (\<lambda>t. void (CRun t)) (Programs pt') w')))"

definition RunUtilityTracer :: "env \<Rightarrow> tracer \<Rightarrow> world \<Rightarrow> error option \<times> world" where
  "RunUtilityTracer E p w =
     (case perform E (CLoad p) (plog Debug ''loading independent eBPF program'' w) of
        (Some err, w1) \<Rightarrow> (Some (''loading eBPF program: '' @ err), w1)
      | (None, w1) \<Rightarrow>
          (case perform E (CLoadAndAssign p) w1 of
             (Some err, w2) \<Rightarrow>
               (Some (''loading and assigning BPF objects: '' @ err), void (CprintVerifierErrorInfo err) w2)
           | (None, w2) \<Rightarrow>
               (case attach_or_print E (Ckprobes p) (dummy_instrumenter, w2) of
                  (Some err, i3, w3) \<Rightarrow> (Some err, w3)
                | (None, i3, w3) \<Rightarrow>
                    (case attach_or_print E (Ctracepoints p) (i3, w3) of
                       (Some err, i4, w4) \<Rightarrow> (Some err, w4)
                     | (None, i4, w4) \<Rightarrow> (None, void CFlushKernelSpec (void (CRun p) w4))))))"

subsection \<open>Sequences of operations\<close>

datatype operation =
    OpInit
  | OpRun
  | OpNewExecutable nat Instrumentable
  | OpNewExecutableInstance Instrumentable
  | OpUnlinkExecutable FileInfo
  | OpRunUtilityTracer tracer

text \<open>
  The state after a function that may panic: its result, or on a panic the tracer as it was
  and the world of the panic, marked as dead.
\<close>

definition settle :: "ProcessTracer \<Rightarrow> (ProcessTracer \<times> world) result \<Rightarrow> ProcessTracer \<times> world" where
  "settle pt r =
     (case r of
        Inl pw \<Rightarrow> (pt, (snd pw)\<lparr>panicked := Some (fst pw)\<rparr>)
      | Inr ptw \<Rightarrow> ptw)"

text \<open>One operation on the tracer; the error it returns goes to the caller and is dropped here.\<close>

fun operate :: "env \<Rightarrow> operation \<Rightarrow> ProcessTracer \<times> world \<Rightarrow> ProcessTracer \<times> world" where
  "operate E OpInit ptw = (fst ptw, snd (Init E (fst ptw) (snd ptw)))"
| "operate E OpRun ptw = settle (fst ptw) (Run ptw)"
| "operate E (OpNewExecutable ex ie) ptw = snd (NewExecutable E ex ie ptw)"
| "operate E (OpNewExecutableInstance ie) ptw = settle (fst ptw) (map_sum id snd (NewExecutableInstance E ie ptw))"
| "operate E (OpUnlinkExecutable info) ptw = settle (fst ptw) (UnlinkExecutable E info ptw)"
| "operate E (OpRunUtilityTracer p) ptw = (fst ptw, snd (RunUtilityTracer E p (snd ptw)))"

text \<open>In a process that has died of a panic no operation takes place.\<close>

definition step :: "env \<Rightarrow> operation \<Rightarrow> ProcessTracer \<times> world \<Rightarrow> ProcessTracer \<times> world" where
  "step E op ptw = (if panicked (snd ptw) = None then operate E op ptw else ptw)"

fun run_ops :: "env \<Rightarrow> operation list \<Rightarrow> ProcessTracer \<times> world \<Rightarrow> ProcessTracer \<times> world" where
  "run_ops E [] ptw = ptw"
| "run_ops E (op # ops) ptw = run_ops E ops (step E op ptw)"

text \<open>A kernel load that failed with a diagnostic naming the missing helper.\<close>

fun helper_failure :: "call \<times> error option \<Rightarrow> bool" where
  "helper_failure (CLoadAndAssign p, Some err) = Contains err missing_helper"
| "helper_failure _ = False"

text \<open>
  Two relations between the world before and after a function. \<open>quiet_step\<close>: the trace was
  only extended and the flag is as before. \<open>flag_step\<close>: the trace was only extended, a set
  flag stays set, and a flag that is set afterwards was set before or the added calls hold a
  kernel load that failed on the missing helper.
\<close>

definition quiet_step :: "world \<Rightarrow> world \<Rightarrow> bool" where
  "quiet_step w w' = (prefix (trace w) (trace w') \<and> IntegrityModeOverride w' = IntegrityModeOverride w)"

definition flag_step :: "world \<Rightarrow> world \<Rightarrow> bool" where
  "flag_step w w' =
     (prefix (trace w) (trace w')
      \<and> (IntegrityModeOverride w \<longrightarrow> IntegrityModeOverride w')
      \<and> (IntegrityModeOverride w' \<longrightarrow> IntegrityModeOverride w \<or> list_ex helper_failure (emitted w w')))"

text \<open>\<open>adds P\<close>: the trace was only extended, by calls that all satisfy \<open>P\<close>.\<close>

definition adds :: "(call \<Rightarrow> bool) \<Rightarrow> world \<Rightarrow> world \<Rightarrow> bool" where
  "adds P w w' = (prefix (trace w) (trace w') \<and> list_all P (calls w w'))"

text \<open>
  What the loop of releases adds to the trace: the releases in the order of the slice, as far
  as the loop got, and no message but the debug message; when the loop has not panicked,
  every release, and as many messages as releases that failed.
\<close>

definition closed_as_far :: "closer list \<Rightarrow> world result \<Rightarrow> (call \<times> error option) list \<Rightarrow> bool" where
  "closed_as_far cs r new =
     (prefix (filter (\<lambda>c. \<not> isLog c) (map fst new)) (map CClose cs)
      \<and> (\<forall>c \<in> set (map fst new). isLog c \<longrightarrow> c = CLog Debug ''Unable to close on unlink'')
      \<and> (\<not> isl r \<longrightarrow>
            filter (\<lambda>c. \<not> isLog c) (map fst new) = map CClose cs
            \<and> length (filter (\<lambda>e. isLog (fst e)) new) = length (filter (\<lambda>e. snd e \<noteq> None) new)))"

section \<open>The Go tracer (package gotracer)\<close>

record TracerConfig =
  BpfDebug :: bool
  WakeupLen :: int

text \<open>The programs of \<open>bpfObjects\<close> that the probe table refers to.\<close>

datatype bpfProgram =
    UprobeProcNewproc1
  | UprobeProcNewproc1Ret
  | UprobeProcGoexit1
  | UprobeServeHTTP
  | UprobeServeHTTPReturns
  | UprobeReadRequestStart
  | UprobeReadRequestReturns
  | UprobeRoundTrip
  | UprobeRoundTripReturn
  | UprobeHttp2RoundTrip
  | UprobeHttp2ResponseWriterStateWriteHeader
  | UprobeHttp2serverConnRunHandler
  | UprobeConnServe
  | UprobeConnServeRet
  | UprobeNetFdRead
  | UprobePersistConnRoundTrip
  | UprobeQueryDC
  | UprobeQueryReturn
  | UprobeExecDC
  | UprobeServerHandleStream
  | UprobeServerHandleStreamReturn
  | UprobeTransportWriteStatus
  | UprobeClientConnInvoke
  | UprobeClientConnInvokeReturn
  | UprobeClientConnNewStream
  | UprobeClientConnClose
  | UprobeClientStreamRecvMsgReturn
  | UprobeTransportHttp2ClientNewStream
  | UprobeHttp2ServerOperateHeaders
  | UprobeServerHandlerTransportHandleStreams
  | UprobeWriteSubset
  | UprobeHttp2FramerWriteHeaders
  | UprobeHttp2FramerWriteHeadersReturns

record FunctionPrograms =
  Start :: "bpfProgram option"
  End :: "bpfProgram option"

text \<open>
  \<open>supportsContextPropagation\<close>: \<open>ks\<close> is the answer of \<open>ebpfcommon.SupportsContextPropagation\<close>,
  a probe of the kernel that package \<open>ebpfcommon\<close> defines.
\<close>

definition supportsContextPropagation :: "bool \<Rightarrow> world \<Rightarrow> bool" where
  "supportsContextPropagation ks w = (\<not> IntegrityModeOverride w \<and> ks)"

text \<open>The four compiled artifacts.\<close>

datatype loader = loadBpf | loadBpf_debug | loadBpf_tp | loadBpf_tp_debug

text \<open>\<open>Load\<close> up to the call of the loader it has selected.\<close>

definition Load :: "TracerConfig \<Rightarrow> bool \<Rightarrow> world \<Rightarrow> loader \<times> world" where
  "Load cfg ks w =
     (let loader = (if BpfDebug cfg then loadBpf_debug else loadBpf)
      in if supportsContextPropagation ks w
         then (if BpfDebug cfg then loadBpf_tp_debug else loadBpf_tp, w)
         else (loader, plog Info
                 (''Kernel in lockdown mode or missing CAP_SYS_ADMIN,'' @
                  '' trace info propagation in HTTP headers is disabled.'') w))"

definition GoProbes_base :: "(string \<times> FunctionPrograms) list" where
  "GoProbes_base =
    [
     (''runtime.newproc1'', \<lparr>Start = Some UprobeProcNewproc1, End = Some UprobeProcNewproc1Ret\<rparr>),
     (''runtime.goexit1'', \<lparr>Start = Some UprobeProcGoexit1, End = None\<rparr>),
     (''net/http.serverHandler.ServeHTTP'', \<lparr>Start = Some UprobeServeHTTP, End = Some UprobeServeHTTPReturns\<rparr>),
     (''net/http.(*conn).readRequest'', \<lparr>Start = Some UprobeReadRequestStart, End = Some UprobeReadRequestReturns\<rparr>),
     (''net/http.(*Transport).roundTrip'', \<lparr>Start = Some UprobeRoundTrip, End = Some UprobeRoundTripReturn\<rparr>),
     (''golang.org/x/net/http2.(*ClientConn).roundTrip'', \<lparr>Start = Some UprobeHttp2RoundTrip, End = Some UprobeRoundTripReturn\<rparr>),
     (''golang.org/x/net/http2.(*ClientConn).RoundTrip'', \<lparr>Start = Some UprobeHttp2RoundTrip, End = Some UprobeRoundTripReturn\<rparr>),
     (''net/http.(*http2ClientConn).RoundTrip'', \<lparr>Start = Some UprobeHttp2RoundTrip, End = Some UprobeRoundTripReturn\<rparr>),
     (''golang.org/x/net/http2.(*responseWriterState).writeHeader'', \<lparr>Start = Some UprobeHttp2ResponseWriterStateWriteHeader, End = None\<rparr>),
     (''net/http.(*http2responseWriterState).writeHeader'', \<lparr>Start = Some UprobeHttp2ResponseWriterStateWriteHeader, End = None\<rparr>),
     (''net/http.(*response).WriteHeader'', \<lparr>Start = Some UprobeHttp2ResponseWriterStateWriteHeader, End = None\<rparr>),
     (''golang.org/x/net/http2.(*serverConn).runHandler'', \<lparr>Start = Some UprobeHttp2serverConnRunHandler, End = None\<rparr>),
     (''net/http.(*http2serverConn).runHandler'', \<lparr>Start = Some UprobeHttp2serverConnRunHandler, End = None\<rparr>),
     (''net/http.(*conn).serve'', \<lparr>Start = Some UprobeConnServe, End = Some UprobeConnServeRet\<rparr>),
     (''net.(*netFD).Read'', \<lparr>Start = Some UprobeNetFdRead, End = None\<rparr>),
     (''net/http.(*persistConn).roundTrip'', \<lparr>Start = Some UprobePersistConnRoundTrip, End = None\<rparr>),
     (''database/sql.(*DB).queryDC'', \<lparr>Start = Some UprobeQueryDC, End = Some UprobeQueryReturn\<rparr>),
     (''database/sql.(*DB).execDC'', \<lparr>Start = Some UprobeExecDC, End = Some UprobeQueryReturn\<rparr>),
     (''google.golang.org/grpc.(*Server).handleStream'', \<lparr>Start = Some UprobeServerHandleStream, End = Some UprobeServerHandleStreamReturn\<rparr>),
     (''google.golang.org/grpc/internal/transport.(*http2Server).WriteStatus'', \<lparr>Start = Some UprobeTransportWriteStatus, End = None\<rparr>),
     (''google.golang.org/grpc.(*ClientConn).Invoke'', \<lparr>Start = Some UprobeClientConnInvoke, End = Some UprobeClientConnInvokeReturn\<rparr>),
     (''google.golang.org/grpc.(*ClientConn).NewStream'', \<lparr>Start = Some UprobeClientConnNewStream, End = Some UprobeServerHandleStreamReturn\<rparr>),
     (''google.golang.org/grpc.(*ClientConn).Close'', \<lparr>Start = Some UprobeClientConnClose, End = None\<rparr>),
     (''google.golang.org/grpc.(*clientStream).RecvMsg'', \<lparr>Start = None, End = Some UprobeClientStreamRecvMsgReturn\<rparr>),
     (''google.golang.org/grpc.(*clientStream).CloseSend'', \<lparr>Start = None, End = Some UprobeClientConnInvokeReturn\<rparr>),
     (''google.golang.org/grpc/internal/transport.(*http2Client).NewStream'', \<lparr>Start = Some UprobeTransportHttp2ClientNewStream, End = None\<rparr>),
     (''google.golang.org/grpc/internal/transport.(*http2Server).operateHeaders'', \<lparr>Start = Some UprobeHttp2ServerOperateHeaders, End = None\<rparr>),
     (''google.golang.org/grpc/internal/transport.(*serverHandlerTransport).HandleStreams'', \<lparr>Start = Some UprobeServerHandlerTransportHandleStreams, End = None\<rparr>)
    ]"

definition GoProbes :: "bool \<Rightarrow> world \<Rightarrow> (string \<rightharpoonup> FunctionPrograms)" where
  "GoProbes ks w =
     (let m = map_of GoProbes_base
      in if supportsContextPropagation ks w
         then m(''net/http.Header.writeSubset'' \<mapsto> \<lparr>Start = Some UprobeWriteSubset, End = None\<rparr>,
                ''golang.org/x/net/http2.(*Framer).WriteHeaders'' \<mapsto>
                   \<lparr>Start = Some UprobeHttp2FramerWriteHeaders, End = Some UprobeHttp2FramerWriteHeadersReturns\<rparr>,
                ''net/http.(*http2Framer).WriteHeaders'' \<mapsto>
                   \<lparr>Start = Some UprobeHttp2FramerWriteHeaders, End = Some UprobeHttp2FramerWriteHeadersReturns\<rparr>)
         else m)"

subsection \<open>Constants\<close>

definition required_keys :: "string list" where
  "required_keys =
    [''url_ptr_pos'', ''path_ptr_pos'', ''method_ptr_pos'', ''status_code_ptr_pos'',
     ''content_length_ptr_pos'', ''req_header_ptr_pos'', ''io_writer_buf_ptr_pos'',
     ''io_writer_n_pos'', ''tcp_addr_port_ptr_pos'', ''tcp_addr_ip_ptr_pos'', ''pc_conn_pos'',
     ''pc_tls_pos'', ''c_rwc_pos'', ''c_tls_pos'', ''net_conn_pos'', ''conn_fd_pos'',
     ''fd_laddr_pos'', ''fd_raddr_pos'']"

definition optional_keys :: "string list" where
  "optional_keys =
    [''cc_next_stream_id_pos'', ''framer_w_pos'', ''cc_tconn_pos'', ''sc_conn_pos'',
     ''grpc_stream_st_ptr_pos'', ''grpc_stream_method_ptr_pos'', ''grpc_status_s_pos'',
     ''grpc_status_code_ptr_pos'', ''grpc_st_conn_pos'', ''grpc_stream_ctx_ptr_pos'',
     ''grpc_t_conn_pos'', ''grpc_t_scheme_pos'', ''value_context_val_ptr_pos'',
     ''http2_client_next_id_pos'', ''grpc_transport_buf_writer_buf_pos'',
     ''grpc_transport_buf_writer_offset_pos'']"

text \<open>\<open>offsets.Field[s]\<close>: a key that is not in a Go map reads as the zero value, \<open>nil\<close>.\<close>

definition field :: "Offsets \<Rightarrow> string \<Rightarrow> any" where
  "field offs s = (case FieldOffsets offs s of None \<Rightarrow> nil | Some v \<Rightarrow> v)"

definition set_required :: "Offsets \<Rightarrow> string \<Rightarrow> (string \<times> any) list \<Rightarrow> (string \<times> any) list" where
  "set_required offs s constants = AList.update s (field offs s) constants"

definition set_optional :: "Offsets \<Rightarrow> string \<Rightarrow> (string \<times> any) list \<Rightarrow> (string \<times> any) list" where
  "set_optional offs s constants =
     (let constants' = AList.update s (field offs s) constants
      in if map_of constants' s = Some nil
         then AList.update s (Uint64 0xffffffffffffffff) constants'
         else constants')"

text \<open>
  \<open>Constants\<close>: the table \<open>map[string]any\<close> as an association list with one entry per key.
  \<open>sz\<close> is \<open>unsafe.Sizeof(ebpfcommon.HTTPRequestTrace{})\<close>, the size of a type that package
  \<open>ebpfcommon\<close> declares; the product is taken in \<open>uint32\<close>. The pointer \<open>offsets\<close> is taken
  to be set, as it is for every Go executable that the tracer is handed.
\<close>

definition Constants :: "nat \<Rightarrow> TracerConfig \<Rightarrow> Offsets \<Rightarrow> (string \<times> any) list" where
  "Constants sz cfg offs =
     fold (set_optional offs) optional_keys
       (fold (set_required offs) required_keys
          [(''wakeup_data_bytes'', Uint32 (word_of_int (WakeupLen cfg) * word_of_nat sz))])"

text \<open>
  Modelled from the spec: \<open>CollectionSpec.RewriteConstants\<close> of the eBPF library, which is not
  among the sources of this repository. The spec names its failure \<open>ConstantRewriteFailed\<close>, "missing
  required constant or out-of-range value; fatal", and says of the constants table that
  "required keys fail loading if absent". A constant of the table that has no value (\<open>nil\<close>) is
  missing, and the rewrite fails on the first one.
\<close>

definition RewriteConstants :: "(string \<times> any) list \<Rightarrow> error option" where
  "RewriteConstants constants =
     (case filter (\<lambda>kv. snd kv = nil) constants of
        [] \<Rightarrow> None
      | kv # _ \<Rightarrow> Some (''missing constant '' @ fst kv))"

text \<open>
  \<open>loadSpec\<close> for the Go tracer: \<open>loaded\<close> is what the selected loader returns (\<open>nil\<close> when the
  embedded artifact parses), then the constants are rewritten.
\<close>

definition loadSpec_go :: "error option \<Rightarrow> nat \<Rightarrow> TracerConfig \<Rightarrow> Offsets \<Rightarrow> error option" where
  "loadSpec_go loaded sz cfg offs =
     (case loaded of
        Some err \<Rightarrow> Some (''loading eBPF program: '' @ err)
      | None \<Rightarrow>
          (case RewriteConstants (Constants sz cfg offs) of
             Some err \<Rightarrow> Some (''rewriting BPF constants definition: '' @ err)
           | None \<Rightarrow> None))"

section \<open>The Prometheus reporter (package imetrics)\<close>

text \<open>
  A \<open>float64\<close> is kept abstract: \<open>'f\<close> is the type of its values and \<open>float64 :: int \<Rightarrow> 'f\<close> the
  conversion of an integer. A histogram is its bucket boundaries and the values observed so
  far; \<open>Observe\<close> records one value.
\<close>

definition pipelineBufferLengths :: "(int \<Rightarrow> 'f) \<Rightarrow> 'f list" where
  "pipelineBufferLengths float64 = map float64 [0, 10, 20, 40, 80, 160, 320]"

record PrometheusConfig =
  Port :: int
  Path :: string

record 'f Histogram =
  Name :: string
  Buckets :: "'f list"
  observed :: "'f list"

definition Observe :: "'f \<Rightarrow> 'f Histogram \<Rightarrow> 'f Histogram" where
  "Observe v h = h\<lparr>observed := observed h @ [v]\<rparr>"

text \<open>Of the metrics of the reporter only the histogram of flushes is kept.\<close>

record 'f PrometheusReporter =
  tracerFlushes :: "'f Histogram"

definition NewPrometheusReporter :: "(int \<Rightarrow> 'f) \<Rightarrow> PrometheusConfig \<Rightarrow> 'f PrometheusReporter" where
  "NewPrometheusReporter float64 cfg =
     \<lparr>tracerFlushes =
        \<lparr>Name = ''beyla_ebpf_tracer_flushes'',
         Buckets = pipelineBufferLengths float64,
         observed = []\<rparr>\<rparr>"

definition TracerFlush :: "(int \<Rightarrow> 'f) \<Rightarrow> int \<Rightarrow> 'f PrometheusReporter \<Rightarrow> 'f PrometheusReporter" where
  "TracerFlush float64 len p = p\<lparr>tracerFlushes := Observe (float64 len) (tracerFlushes p)\<rparr>"

section \<open>Example inputs\<close>

definition quiet :: env where
  "quiet = \<lparr>respond = (\<lambda>w c. None), attached = (\<lambda>w i c. ([], []))\<rparr>"

definition w0 :: world where
  "w0 = \<lparr>IntegrityModeOverride = False, trace = [], panicked = None\<rparr>"

definition i1 :: instrumenter where
  "i1 = \<lparr>offsets = None, exe = Some 9, closables = [1, 2, 3], modules = [100, 200]\<rparr>"

text \<open>A tracer on which \<open>Run\<close> has been called, with one executable registered.\<close>

definition pt1 :: ProcessTracer where
  "pt1 = \<lparr>Programs = [0, 1], PinPath = ''/sys/fs/bpf/beyla'', SystemWide = False, Type = 0,
          Instrumentables = [7 \<mapsto> i1], log = Some (Logger 0)\<rparr>"

text \<open>The same tracer before \<open>Run\<close>: its logger is \<open>nil\<close>.\<close>

definition pt_fresh :: ProcessTracer where
  "pt_fresh = pt1\<lparr>log := None\<rparr>"

text \<open>
  The environment in which \<open>NewExecutable\<close> for the inode 7 and the process 42 registers that
  executable: the Go probes of program 0 append the handles 1, 2, 3, its uprobes record the
  modules 200 and 100; later the release of handle 1 fails.
\<close>

definition registers :: env where
  "registers =
     \<lparr>respond = (\<lambda>w c. if c = CClose 1 then Some ''bad file descriptor'' else None),
      attached = (\<lambda>w i c. if c = Cgoprobes 0 then ([1, 2, 3], [])
                             else if c = Cuprobes 42 0 then ([], [200, 100])
                             else ([], []))\<rparr>"

definition info1 :: FileInfo where
  "info1 = \<lparr>CmdExePath = ''/bin/app'', Pid = 42, Ino = 7\<rparr>"

definition info2 :: FileInfo where
  "info2 = \<lparr>CmdExePath = ''/bin/other'', Pid = 43, Ino = 8\<rparr>"

text \<open>A tracer on which \<open>Run\<close> has been called, with no executable registered.\<close>

definition pt0 :: ProcessTracer where
  "pt0 = \<lparr>Programs = [0, 1], PinPath = ''/sys/fs/bpf/beyla'', SystemWide = False, Type = 0,
          Instrumentables = Map.empty, log = Some (Logger 0)\<rparr>"

definition ie1 :: Instrumentable where
  "ie1 = \<lparr>FileInfo = info1, Offsets = None\<rparr>"

definition w_override :: world where
  "w_override = \<lparr>IntegrityModeOverride = True, trace = [], panicked = None\<rparr>"

definition ops1 :: "operation list" where
  "ops1 = [OpInit, OpUnlinkExecutable info1]"

text \<open>
  A kernel without the helper: the load of program 0 fails on it as long as the flag is not
  set; the load of program 1 is refused for another reason; the artifact of program 2 does
  not parse; the load of program 3 fails on the helper whatever the flag, and once the flag is
  set its constants cannot be rewritten.
\<close>

definition helper_error :: string where
  "helper_error = ''program uprobe_WriteSubset: unknown func bpf_probe_write_user#36''"

definition helper_missing :: env where
  "helper_missing =
     \<lparr>respond = (\<lambda>w c.
         if c = CLoadAndAssign 0 \<and> \<not> IntegrityModeOverride w then Some helper_error
         else if c = CLoadAndAssign 1 then Some ''operation not permitted''
         else if c = CLoad 2 then Some ''cannot load bpf_tp''
         else if c = CLoadAndAssign 3 then Some helper_error
         else if c = CRewriteConstants 3 \<and> IntegrityModeOverride w then Some ''no such constant''
         else None),
      attached = (\<lambda>w i c. ([], []))\<rparr>"

text \<open>
  The Go probes of program 0 attach and append the release handle 5; its uprobes for the
  process 42 are refused.
\<close>

definition uprobes_fail :: env where
  "uprobes_fail =
     \<lparr>respond = (\<lambda>w c. if c = Cuprobes 42 0 then Some ''attach failed'' else None),
      attached = (\<lambda>w i c. if c = Cgoprobes 0 then ([5], []) else ([], []))\<rparr>"

definition offsets1 :: Offsets where
  "offsets1 = \<lparr>FieldOffsets = [''url_ptr_pos'' \<mapsto> Uint64 16]\<rparr>"

definition cfg1 :: TracerConfig where
  "cfg1 = \<lparr>BpfDebug = False, WakeupLen = 10\<rparr>"

section \<open>Properties of the orchestrator\<close>

subsection \<open>What a call adds to the trace\<close>

lemma perform_trace: "trace (snd (perform E c w)) = trace w @ [(c, respond E w c)]"
  by (simp add: perform_def Let_def)

lemma perform_flag: "IntegrityModeOverride (snd (perform E c w)) = IntegrityModeOverride w"
  by (simp add: perform_def Let_def)

lemma void_trace: "trace (void c w) = trace w @ [(c, None)]"
  by (simp add: void_def)

lemma void_flag: "IntegrityModeOverride (void c w) = IntegrityModeOverride w"
  by (simp add: void_def)




lemma filter_isClose_unlinks:
  "filter isClose (concat (map (\<lambda>m. map (\<lambda>p. CUnlinkInstrumentedLib p m) ps) ms)) = []"
  by (induction ms) (auto simp: filter_empty_conv)

lemma filter_notLog_unlinks:
  "filter (\<lambda>c. \<not> isLog c) (concat (map (\<lambda>m. map (\<lambda>p. CUnlinkInstrumentedLib p m) ps) ms))
     = concat (map (\<lambda>m. map (\<lambda>p. CUnlinkInstrumentedLib p m) ps) ms)"
  by (induction ms) (auto simp: filter_id_conv)

subsection \<open>The loops of UnlinkExecutable\<close>

lemma close_closables_trace:
  "\<exists>new. trace (world_at (close_closables E pt cs w)) = trace w @ new
      \<and> closed_as_far cs (close_closables E pt cs w) new"
proof (induction cs arbitrary: w)
  case Nil
  then show ?case by (simp add: world_at_def closed_as_far_def)
next
  case (Cons c cs)
  show ?case
  proof (cases "respond E w (CClose c)")
    case None
    let ?w = "w\<lparr>trace := trace w @ [(CClose c, None)]\<rparr>"
    have step: "close_closables E pt (c # cs) w = close_closables E pt cs ?w"
      using None by (simp add: perform_def Let_def)
    from Cons.IH [of ?w] obtain new where
      n: "trace (world_at (close_closables E pt cs ?w)) = trace ?w @ new"
         "closed_as_far cs (close_closables E pt cs ?w) new"
      by blast
    have "trace (world_at (close_closables E pt (c # cs) w)) = trace w @ (CClose c, None) # new"
      unfolding step using n(1) by simp
    moreover have "closed_as_far (c # cs) (close_closables E pt (c # cs) w) ((CClose c, None) # new)"
      unfolding step using n(2) by (simp add: closed_as_far_def)
    ultimately show ?thesis by blast
  next
    case (Some err)
    let ?w1 = "w\<lparr>trace := trace w @ [(CClose c, Some err)]\<rparr>"
    show ?thesis
    proof (cases "log pt")
      case None
      have step: "close_closables E pt (c # cs) w = Inl (NilPointerDereference, ?w1)"
        using Some None by (simp add: perform_def Let_def pt_log_def)
      have "trace (world_at (close_closables E pt (c # cs) w)) = trace w @ [(CClose c, Some err)]"
        unfolding step by (simp add: world_at_def)
      moreover have "closed_as_far (c # cs) (close_closables E pt (c # cs) w) [(CClose c, Some err)]"
        unfolding step by (simp add: closed_as_far_def)
      ultimately show ?thesis by blast
    next
      case (Some lg)
      let ?w = "void (CLog Debug ''Unable to close on unlink'') ?w1"
      let ?new = "\<lambda>new. (CClose c, Some err) # (CLog Debug ''Unable to close on unlink'', None) # new"
      have step: "close_closables E pt (c # cs) w = close_closables E pt cs ?w"
        using \<open>respond E w (CClose c) = Some err\<close> Some by (simp add: perform_def Let_def pt_log_def)
      from Cons.IH [of ?w] obtain new where
        n: "trace (world_at (close_closables E pt cs ?w)) = trace ?w @ new"
           "closed_as_far cs (close_closables E pt cs ?w) new"
        by blast
      have "trace (world_at (close_closables E pt (c # cs) w)) = trace w @ ?new new"
        unfolding step using n(1) by (simp add: void_def)
      moreover have "closed_as_far (c # cs) (close_closables E pt (c # cs) w) (?new new)"
        unfolding step using n(2) by (simp add: closed_as_far_def)
      ultimately show ?thesis by blast
    qed
  qed
qed


lemma close_closables_flag:
  "IntegrityModeOverride (world_at (close_closables E pt cs w)) = IntegrityModeOverride w"
  by (induction cs arbitrary: w)
    (auto simp: perform_def Let_def pt_log_def void_def world_at_def split: option.splits)

lemma close_closables_panicked:
  "panicked (world_at (close_closables E pt cs w)) = panicked w"
  by (induction cs arbitrary: w)
    (auto simp: perform_def Let_def pt_log_def void_def world_at_def split: option.splits)

lemma unlink_lib_trace:
  "trace (unlink_lib m ps w) = trace w @ map (\<lambda>p. (CUnlinkInstrumentedLib p m, None)) ps"
  by (induction ps arbitrary: w) (simp_all add: void_trace)

lemma unlink_lib_flag: "IntegrityModeOverride (unlink_lib m ps w) = IntegrityModeOverride w"
  by (induction ps arbitrary: w) (simp_all add: void_flag)

lemma unlink_modules_trace:
  "trace (unlink_modules ps ms w)
     = trace w @ concat (map (\<lambda>m. map (\<lambda>p. (CUnlinkInstrumentedLib p m, None)) ps) ms)"
  by (induction ms arbitrary: w) (simp_all add: unlink_lib_trace)

lemma unlink_modules_flag: "IntegrityModeOverride (unlink_modules ps ms w) = IntegrityModeOverride w"
  by (induction ms arbitrary: w) (simp_all add: unlink_lib_flag)

text \<open>
  For a known inode the calls of \<open>UnlinkExecutable\<close> are those of the loop of releases and,
  when that loop has not panicked, the signals to the programs, module by module; then the
  entry of the inode is removed. On a tracer whose logger is set there is no panic.
\<close>

lemma UnlinkExecutable_known:
  assumes "Instrumentables pt (Ino info) = Some i"
  shows "\<exists>n1 n2. emitted w (world_of (UnlinkExecutable E info (pt, w))) = n1 @ n2
     \<and> closed_as_far (closables i) (close_closables E pt (closables i) w) n1
     \<and> isl (UnlinkExecutable E info (pt, w)) = isl (close_closables E pt (closables i) w)
     \<and> (isl (UnlinkExecutable E info (pt, w)) \<longrightarrow> n2 = [])
     \<and> (\<not> isl (UnlinkExecutable E info (pt, w)) \<longrightarrow>
          n2 = concat (map (\<lambda>m. map (\<lambda>p. (CUnlinkInstrumentedLib p m, None)) (Programs pt)) (modules i))
          \<and> UnlinkExecutable E info (pt, w)
              = Inr (pt\<lparr>Instrumentables := (Instrumentables pt)(Ino info := None)\<rparr>,
                     world_of (UnlinkExecutable E info (pt, w))))"
proof -
  let ?r = "close_closables E pt (closables i) w"
  obtain n1 where n1: "trace (world_at ?r) = trace w @ n1" "closed_as_far (closables i) ?r n1"
    using close_closables_trace by blast
  show ?thesis
  proof (cases ?r)
    case (Inl pw)
    have u: "UnlinkExecutable E info (pt, w) = Inl pw"
      using assms Inl by (simp add: UnlinkExecutable_def)
    have "emitted w (world_of (UnlinkExecutable E info (pt, w))) = n1 @ []"
      using n1(1) Inl by (simp add: u world_of_def world_at_def emitted_def)
    then show ?thesis using n1(2) Inl u by (intro exI [of _ n1] exI [of _ "[]"]) simp
  next
    case (Inr w')
    let ?n2 = "concat (map (\<lambda>m. map (\<lambda>p. (CUnlinkInstrumentedLib p m, None :: error option)) (Programs pt)) (modules i))"
    have u: "UnlinkExecutable E info (pt, w)
        = Inr (pt\<lparr>Instrumentables := (Instrumentables pt)(Ino info := None)\<rparr>,
               unlink_modules (Programs pt) (modules i) w')"
      using assms Inr by (simp add: UnlinkExecutable_def)
    have "emitted w (world_of (UnlinkExecutable E info (pt, w))) = n1 @ ?n2"
      using n1(1) Inr by (simp add: u world_of_def world_at_def emitted_def unlink_modules_trace)
    then show ?thesis using n1(2) Inr u
      by (intro exI [of _ n1] exI [of _ ?n2]) (simp add: world_of_def)
  qed
qed


text \<open>
  Where \<open>UnlinkExecutable\<close> returns, as it does on a tracer whose logger is set: every
  closable is released, every module is signalled once per entry of the list of programs,
  a failed release is followed by its debug message, and the entry of the inode is removed.
\<close>

lemma count_unlinks:
  "count_list (concat (map (\<lambda>m. map (\<lambda>p. CUnlinkInstrumentedLib p m) ps) ms)) (CUnlinkInstrumentedLib p m)
     = count_list ps p * count_list ms m"
proof -
  have inner: "count_list (map (\<lambda>p. CUnlinkInstrumentedLib p m') ps) (CUnlinkInstrumentedLib p m)
      = (if m' = m then count_list ps p else 0)" for m'
    by (induction ps) auto
  show ?thesis
    by (induction ms) (auto simp: inner)
qed

lemma count_list_distinct: "distinct xs \<Longrightarrow> x \<in> set xs \<Longrightarrow> count_list xs x = 1"
  by (induction xs) (auto simp add: count_list_0_iff)

lemma count_closes_unlink:
  assumes "filter (\<lambda>c. \<not> isLog c) n1 = map CClose cs"
  shows "count_list n1 (CUnlinkInstrumentedLib p m) = 0"
proof -
  have "CUnlinkInstrumentedLib p m \<notin> set (filter (\<lambda>c. \<not> isLog c) n1)"
    unfolding assms by auto
  then have "CUnlinkInstrumentedLib p m \<notin> set n1" by simp
  then show ?thesis by (simp add: count_list_0_iff)
qed

lemma map_fst_unlink_entries:
  "map fst (concat (map (\<lambda>m. map (\<lambda>p. (CUnlinkInstrumentedLib p m, r)) ps) ms))
     = concat (map (\<lambda>m. map (\<lambda>p. CUnlinkInstrumentedLib p m) ps) ms)"
  by (simp add: map_concat comp_def)

lemma UnlinkExecutable_when_returning:
  assumes "Instrumentables pt (Ino info) = Some i" and "\<not> isl (UnlinkExecutable E info (pt, w))"
  shows "filter (\<lambda>c. \<not> isLog c) (calls w (world_of (UnlinkExecutable E info (pt, w))))
           = map CClose (closables i)
             @ concat (map (\<lambda>m. map (\<lambda>p. CUnlinkInstrumentedLib p m) (Programs pt)) (modules i))"
    and "\<forall>c \<in> set (calls w (world_of (UnlinkExecutable E info (pt, w)))).
           isLog c \<longrightarrow> c = CLog Debug ''Unable to close on unlink''"
    and "length (filter (\<lambda>e. isLog (fst e)) (emitted w (world_of (UnlinkExecutable E info (pt, w)))))
           = length (filter (\<lambda>e. snd e \<noteq> None) (emitted w (world_of (UnlinkExecutable E info (pt, w)))))"
    and "UnlinkExecutable E info (pt, w)
           = Inr (pt\<lparr>Instrumentables := (Instrumentables pt)(Ino info := None)\<rparr>,
                  world_of (UnlinkExecutable E info (pt, w)))"
    and "distinct (modules i) \<Longrightarrow> m \<in> set (modules i) \<Longrightarrow>
           count_list (calls w (world_of (UnlinkExecutable E info (pt, w)))) (CUnlinkInstrumentedLib p m)
             = count_list (Programs pt) p"
proof -
  let ?U = "UnlinkExecutable E info (pt, w)"
  let ?n2 = "concat (map (\<lambda>m. map (\<lambda>p. (CUnlinkInstrumentedLib p m, None :: error option)) (Programs pt)) (modules i))"
  let ?u = "concat (map (\<lambda>m. map (\<lambda>p. CUnlinkInstrumentedLib p m) (Programs pt)) (modules i))"
  from UnlinkExecutable_known [OF assms(1), of w E] assms(2) obtain n1 where
    n: "emitted w (world_of ?U) = n1 @ ?n2"
       "closed_as_far (closables i) (close_closables E pt (closables i) w) n1"
       "\<not> isl (close_closables E pt (closables i) w)"
       "?U = Inr (pt\<lparr>Instrumentables := (Instrumentables pt)(Ino info := None)\<rparr>, world_of ?U)"
    by auto
  have c: "filter (\<lambda>c. \<not> isLog c) (map fst n1) = map CClose (closables i)"
    and l: "\<forall>c \<in> set (map fst n1). isLog c \<longrightarrow> c = CLog Debug ''Unable to close on unlink''"
    and k: "length (filter (\<lambda>e. isLog (fst e)) n1) = length (filter (\<lambda>e. snd e \<noteq> None) n1)"
    using n(2,3) by (simp_all add: closed_as_far_def)
  have calls: "calls w (world_of ?U) = map fst n1 @ ?u"
    by (simp add: calls_def n(1) map_fst_unlink_entries)
  show "filter (\<lambda>c. \<not> isLog c) (calls w (world_of ?U)) = map CClose (closables i) @ ?u"
    using c by (simp add: calls filter_notLog_unlinks)
  show "\<forall>c \<in> set (calls w (world_of ?U)). isLog c \<longrightarrow> c = CLog Debug ''Unable to close on unlink''"
    using l by (auto simp: calls)
  have "filter (\<lambda>e. isLog (fst e)) ?n2 = []" and "filter (\<lambda>e. snd e \<noteq> None) ?n2 = []"
    by (auto simp: filter_empty_conv)
  then show "length (filter (\<lambda>e. isLog (fst e)) (emitted w (world_of ?U)))
           = length (filter (\<lambda>e. snd e \<noteq> None) (emitted w (world_of ?U)))"
    using k by (simp add: n(1))
  show "?U = Inr (pt\<lparr>Instrumentables := (Instrumentables pt)(Ino info := None)\<rparr>, world_of ?U)"
    by (rule n(4))
  show "count_list (calls w (world_of ?U)) (CUnlinkInstrumentedLib p m) = count_list (Programs pt) p"
    if "distinct (modules i)" and "m \<in> set (modules i)"
    using count_closes_unlink [OF c] count_list_distinct [OF that]
    by (simp add: calls count_unlinks)
qed

lemma UnlinkExecutable_unknown_inode_logged:
  assumes "Instrumentables pt (Ino info) = None" and "log pt \<noteq> None"
  shows "UnlinkExecutable E info (pt, w) = Inr (pt, w\<lparr>trace := trace w @ [unknown_warning]\<rparr>)"
  using assms by (auto simp: UnlinkExecutable_def pt_log_def void_def unknown_warning_def)

lemma UnlinkExecutable_twice:
  assumes "log pt \<noteq> None" and "UnlinkExecutable E info (pt, w) = Inr (pt', w')"
  shows "UnlinkExecutable E info (pt', w') = Inr (pt', w'\<lparr>trace := trace w' @ [unknown_warning]\<rparr>)"
  using assms
  by (auto simp: UnlinkExecutable_def pt_log_def void_def unknown_warning_def
      split: option.splits sum.splits)

subsection \<open>The modules of a registered instrumenter\<close>

text \<open>
  The attachment routines record a module at most once, so in every tracer reached from
  \<open>NewProcessTracer\<close> the module list of each registered instrumenter is without repetitions.
\<close>

lemma distinct_fold_insert: "distinct xs \<Longrightarrow> distinct (fold List.insert ms xs)"
  by (induction ms arbitrary: xs) simp_all

lemma distinct_attach_or_print:
  "distinct (modules (fst iw)) \<Longrightarrow> distinct (modules (fst (snd (attach_or_print E c iw))))"
  by (cases iw)
    (auto simp: attach_or_print_def attach_def distinct_fold_insert split: prod.splits option.splits)

lemma distinct_uprobes_loop:
  "distinct (modules (fst iw)) \<Longrightarrow> distinct (modules (fst (snd (uprobes_loop E pd ps iw))))"
proof (induction ps arbitrary: iw)
  case Nil
  then show ?case by simp
next
  case (Cons p ps)
  let ?a = "attach_or_print E (Cuprobes pd p) iw"
  have s1: "distinct (modules (fst (snd ?a)))"
    using Cons.prems by (rule distinct_attach_or_print)
  have s2: "distinct (modules (fst (snd (uprobes_loop E pd ps (fst (snd ?a), snd (snd ?a))))))"
    using Cons.IH [of "(fst (snd ?a), snd (snd ?a))"] s1 by simp
  show ?case using s1 s2 by (auto split: prod.splits option.splits)
qed

lemma distinct_NewExecutable_loop:
  "distinct (modules (fst iw)) \<Longrightarrow> distinct (modules (fst (snd (NewExecutable_loop E ie ps iw))))"
proof (induction ps arbitrary: iw)
  case Nil
  then show ?case by simp
next
  case (Cons p ps)
  let ?w0 = "void (CRegisterOffsets p (FileInfo ie)) (snd iw)"
  let ?a1 = "attach_or_print E (Cgoprobes p) (fst iw, ?w0)"
  let ?a2 = "attach_or_print E (Cuprobes (Pid (FileInfo ie)) p) (fst (snd ?a1), snd (snd ?a1))"
  have s1: "distinct (modules (fst (snd ?a1)))"
    using Cons.prems distinct_attach_or_print [of "(fst iw, ?w0)"] by simp
  have s2: "distinct (modules (fst (snd ?a2)))"
    using s1 distinct_attach_or_print [of "(fst (snd ?a1), snd (snd ?a1))"] by simp
  have s3: "distinct (modules (fst (snd (NewExecutable_loop E ie ps (fst (snd ?a2), snd (snd ?a2))))))"
    using Cons.IH [of "(fst (snd ?a2), snd (snd ?a2))"] s2 by simp
  show ?case using s1 s2 s3 by (auto split: prod.splits option.splits)
qed

lemma modules_distinct_update:
  "modules_distinct pt \<Longrightarrow> distinct (modules i) \<Longrightarrow>
   modules_distinct (pt\<lparr>Instrumentables := (Instrumentables pt)(k \<mapsto> i)\<rparr>)"
  by (auto simp: modules_distinct_def ran_def split: if_splits)

lemma modules_distinct_delete:
  "modules_distinct pt \<Longrightarrow> modules_distinct (pt\<lparr>Instrumentables := (Instrumentables pt)(k := None)\<rparr>)"
  by (auto simp: modules_distinct_def ran_def split: if_splits)

lemma modules_distinct_settle:
  assumes "modules_distinct pt" and "\<And>pt' w'. r = Inr (pt', w') \<Longrightarrow> modules_distinct pt'"
  shows "modules_distinct (fst (settle pt r))"
  using assms by (cases r) (auto simp: settle_def)

lemma modules_distinct_operate:
  assumes "modules_distinct (fst ptw)"
  shows "modules_distinct (fst (operate E op ptw))"
proof -
  obtain pt w where ptw: "ptw = (pt, w)" by (cases ptw)
  have md: "modules_distinct pt" using assms by (simp add: ptw)
  show ?thesis
  proof (cases op)
    case OpRun
    have "modules_distinct pt'" if "Run (pt, w) = Inr (pt', w')" for pt' w'
      using that md
      by (auto simp: Run_def Let_def pt_log_def modules_distinct_def split: sum.splits)
    then show ?thesis
      using md by (simp add: OpRun ptw modules_distinct_settle)
  next
    case (OpNewExecutable ex ie)
    let ?i = "\<lparr>offsets = Offsets ie, exe = Some ex, closables = [], modules = []\<rparr>"
    have "distinct (modules (fst (snd (NewExecutable_loop E ie (Programs pt) (?i, w)))))"
      using distinct_NewExecutable_loop [of "(?i, w)"] by simp
    then show ?thesis
      using md by (auto simp: OpNewExecutable ptw NewExecutable_def modules_distinct_update
          split: prod.splits option.splits)
  next
    case (OpNewExecutableInstance ie)
    have d: "distinct (modules i')"
      if "Instrumentables pt k = Some i" and "uprobes_loop E pd (Programs pt) (i, w) = (r, i', w')"
      for k i pd r i' w'
    proof -
      have "distinct (modules i)" using md that(1) by (auto simp: modules_distinct_def ran_def)
      then show ?thesis using distinct_uprobes_loop [of "(i, w)" E pd "Programs pt"] that(2) by simp
    qed
    have "modules_distinct pt'"
      if "map_sum id snd (NewExecutableInstance E ie (pt, w)) = Inr (pt', w')" for pt' w'
      using that md d
      by (auto simp: NewExecutableInstance_def pt_log_def modules_distinct_update
          split: prod.splits option.splits sum.splits)
    then show ?thesis
      using md by (simp add: OpNewExecutableInstance ptw modules_distinct_settle)
  next
    case (OpUnlinkExecutable info)
    have "modules_distinct pt'" if "UnlinkExecutable E info (pt, w) = Inr (pt', w')" for pt' w'
      using that md
      by (auto simp: UnlinkExecutable_def pt_log_def modules_distinct_delete
          split: option.splits sum.splits)
    then show ?thesis
      using md by (simp add: OpUnlinkExecutable ptw modules_distinct_settle)
  qed (simp_all add: assms)
qed

lemma modules_distinct_step:
  "modules_distinct (fst ptw) \<Longrightarrow> modules_distinct (fst (step E op ptw))"
  by (simp add: step_def modules_distinct_operate)

lemma modules_distinct_run_ops:
  "modules_distinct (fst ptw) \<Longrightarrow> modules_distinct (fst (run_ops E ops ptw))"
  by (induction ops arbitrary: ptw) (simp_all add: modules_distinct_step)

lemma modules_distinct_reachable:
  "modules_distinct (fst (run_ops E ops (NewProcessTracer pinPath systemWide tracerType programs, w)))"
  by (rule modules_distinct_run_ops) (simp add: NewProcessTracer_def modules_distinct_def)

subsection \<open>Claims about UnlinkExecutable\<close>




text \<open>
  The tracer \<open>pt_fresh\<close> is what \<open>NewExecutable\<close> makes of a tracer fresh from
  \<open>NewProcessTracer\<close>: the executable is registered and \<open>Run\<close> has not been called.
\<close>

lemma pt_fresh_reached:
  "NewExecutable registers 9 ie1 (NewProcessTracer ''/sys/fs/bpf/beyla'' False 0 [0, 1], w0)
     = (None, pt_fresh,
        w0\<lparr>trace := [(CRegisterOffsets 0 info1, None), (Cgoprobes 0, None), (Cuprobes 42 0, None),
                     (CRegisterOffsets 1 info1, None), (Cgoprobes 1, None), (Cuprobes 42 1, None)]\<rparr>)"
  by (simp add: NewExecutable_def NewProcessTracer_def attach_or_print_def attach_def perform_def
      Let_def void_def registers_def ie1_def info1_def pt_fresh_def pt1_def i1_def w0_def)

text \<open>
  C7. On the tracer \<open>pt_fresh\<close>, whose inode 7 is registered with the modules 100 and 200,
  and with a release of handle 1 that fails: \<open>UnlinkExecutable\<close> panics on the \<open>nil\<close> logger
  right after that release, so \<open>UnlinkInstrumentedLib\<close> is not called for module 200 on
  program 1 (nor for any other), and the map still holds the inode.
\<close>

theorem UnlinkExecutable_panic_skips_modules:
  "UnlinkExecutable registers info1 (pt_fresh, w0)
     = Inl (NilPointerDereference, w0\<lparr>trace := [(CClose 1, Some ''bad file descriptor'')]\<rparr>)
   \<and> 200 \<in> set (modules i1) \<and> 1 \<in> set (Programs pt_fresh)
   \<and> count_list (calls w0 (world_of (UnlinkExecutable registers info1 (pt_fresh, w0))))
        (CUnlinkInstrumentedLib 1 200) = 0
   \<and> Instrumentables (fst (step registers (OpUnlinkExecutable info1) (pt_fresh, w0))) (Ino info1)
       = Some i1"
  by (simp add: UnlinkExecutable_def pt_fresh_def pt1_def info1_def i1_def w0_def registers_def
      perform_def Let_def pt_log_def world_of_def calls_def emitted_def step_def settle_def)

text \<open>
  C8. On a tracer fresh from \<open>NewProcessTracer\<close>, \<open>UnlinkExecutable\<close> for an inode that is not
  in the instrumentables map panics: the warning goes to a logger that is \<open>nil\<close>.
\<close>

theorem UnlinkExecutable_unknown_inode_panics:
  "Instrumentables (NewProcessTracer ''/sys/fs/bpf/beyla'' False 0 [0, 1]) (Ino info2) = None
   \<and> UnlinkExecutable quiet info2 (NewProcessTracer ''/sys/fs/bpf/beyla'' False 0 [0, 1], w0)
       = Inl (NilPointerDereference, w0)"
  by (simp add: UnlinkExecutable_def NewProcessTracer_def pt_log_def)

text \<open>
  C10. On the tracer \<open>pt_fresh\<close>, whose inode 7 holds the closables 1, 2, 3, and with a
  release of handle 1 that fails: the error is not logged, the handles 2 and 3 are not
  released, and the process dies of the panic on the \<open>nil\<close> logger.
\<close>

theorem UnlinkExecutable_panic_stops_releases:
  "respond registers w0 (CClose 1) = Some ''bad file descriptor''
   \<and> closables i1 = [1, 2, 3]
   \<and> isl (UnlinkExecutable registers info1 (pt_fresh, w0))
   \<and> filter isClose (calls w0 (world_of (UnlinkExecutable registers info1 (pt_fresh, w0))))
       = [CClose 1]
   \<and> filter isLog (calls w0 (world_of (UnlinkExecutable registers info1 (pt_fresh, w0)))) = []
   \<and> panicked (snd (step registers (OpUnlinkExecutable info1) (pt_fresh, w0)))
       = Some NilPointerDereference"
  by (simp add: UnlinkExecutable_def pt_fresh_def pt1_def info1_def i1_def w0_def registers_def
      perform_def Let_def pt_log_def world_of_def calls_def emitted_def step_def settle_def)

subsection \<open>The flag along the operations\<close>

lemma quiet_step_refl: "quiet_step w w"
  by (simp add: quiet_step_def)

lemma quiet_step_trans: "quiet_step w w' \<Longrightarrow> quiet_step w' w'' \<Longrightarrow> quiet_step w w''"
  by (auto simp: quiet_step_def)

lemma quiet_flag_step: "quiet_step w w' \<Longrightarrow> flag_step w w'"
  by (simp add: quiet_step_def flag_step_def)

lemma emitted_append:
  assumes "prefix (trace w) (trace w')" and "prefix (trace w') (trace w'')"
  shows "emitted w w'' = emitted w w' @ emitted w' w''"
proof -
  obtain a where a: "trace w' = trace w @ a" using assms(1) by (auto simp: prefix_def)
  obtain b where b: "trace w'' = trace w' @ b" using assms(2) by (auto simp: prefix_def)
  show ?thesis by (simp add: emitted_def a b)
qed

lemma flag_step_trans:
  assumes "flag_step w w'" and "flag_step w' w''"
  shows "flag_step w w''"
proof -
  have p: "prefix (trace w) (trace w')" "prefix (trace w') (trace w'')"
    using assms by (simp_all add: flag_step_def)
  have e: "emitted w w'' = emitted w w' @ emitted w' w''"
    using p by (rule emitted_append)
  have "prefix (trace w) (trace w'')" using p by (rule prefix_order.trans)
  then show ?thesis
    using assms unfolding flag_step_def e by auto
qed

lemma quiet_perform: "quiet_step w (snd (perform E c w))"
  by (simp add: quiet_step_def perform_def Let_def)

lemma quiet_void: "quiet_step w (void c w)"
  by (simp add: quiet_step_def void_def)

lemma quiet_plog: "quiet_step w (plog l m w)"
  by (simp add: plog_def quiet_void)

lemma quiet_pt_log: "quiet_step w (world_at (pt_log pt l m w))"
  by (simp add: pt_log_def world_at_def quiet_void quiet_step_refl split: option.splits)

lemma quiet_settle:
  "quiet_step w (world_of r) \<Longrightarrow> quiet_step w (snd (settle pt r))"
  by (cases r) (auto simp: settle_def world_of_def quiet_step_def)

lemma quiet_attach: "quiet_step (snd iw) (snd (snd (attach E c iw)))"
  by (cases iw) (simp add: attach_def quiet_step_def perform_def Let_def split: prod.splits)

lemma quiet_attach_or_print: "quiet_step (snd iw) (snd (snd (attach_or_print E c iw)))"
proof -
  have a: "quiet_step (snd iw) (snd (snd (attach E c iw)))" by (rule quiet_attach)
  show ?thesis
    using a quiet_step_trans [OF a quiet_void]
    by (auto simp: attach_or_print_def split: prod.splits option.splits)
qed

lemma quiet_loadSpec: "quiet_step w (snd (loadSpec E p w))"
  by (simp add: loadSpec_def quiet_step_def perform_def Let_def split: option.splits)

lemma emitted_perform: "emitted w (snd (perform E c w)) = [(c, respond E w c)]"
  by (simp add: emitted_def perform_def Let_def)

lemma flag_loadAndAssign: "flag_step w (snd (loadAndAssign E p w))"
proof (cases "respond E w (CLoadAndAssign p)")
  case None
  then show ?thesis
    by (simp add: loadAndAssign_def perform_def Let_def flag_step_def emitted_def)
next
  case (Some err)
  let ?w1 = "w\<lparr>trace := trace w @ [(CLoadAndAssign p, Some err)]\<rparr>"
  show ?thesis
  proof (cases "Contains err missing_helper")
    case False
    then show ?thesis using Some
      by (simp add: loadAndAssign_def perform_def Let_def flag_step_def emitted_def void_def)
  next
    case True
    let ?w2 = "(plog Warn missing_helper_warning ?w1)\<lparr>IntegrityModeOverride := True\<rparr>"
    have first: "flag_step w ?w2"
      using Some True by (simp add: flag_step_def emitted_def plog_def void_def)
    have rest: "quiet_step ?w2 (snd (loadAndAssign E p w))"
    proof -
      obtain r3 w3 where l: "loadSpec E p ?w2 = (r3, w3)" by (cases "loadSpec E p ?w2")
      obtain r4 w4 where q: "perform E (CLoadAndAssign p) w3 = (r4, w4)"
        by (cases "perform E (CLoadAndAssign p) w3")
      have a: "quiet_step ?w2 w3" using quiet_loadSpec [of ?w2 E p] by (simp add: l)
      have b: "quiet_step ?w2 (void c w3)" for c
        using a quiet_void by (rule quiet_step_trans)
      have c: "quiet_step ?w2 w4"
        using quiet_step_trans [OF a quiet_perform [of w3 E "CLoadAndAssign p"]] by (simp add: q)
      have d: "quiet_step ?w2 (void c w4)" for c
        using c quiet_void by (rule quiet_step_trans)
      show ?thesis
        using Some True a b c d
        by (auto simp: loadAndAssign_def perform_def [of E "CLoadAndAssign p" w] Let_def l q
            split: option.splits)
    qed
    show ?thesis using first quiet_flag_step [OF rest] by (rule flag_step_trans)
  qed
qed

lemma flag_loadProgram: "flag_step w (snd (loadProgram E p w))"
proof -
  have a: "flag_step w (snd (loadSpec E p w))" by (rule quiet_flag_step [OF quiet_loadSpec])
  have b: "flag_step w (snd (loadAndAssign E p (snd (loadSpec E p w))))"
    using a flag_loadAndAssign by (rule flag_step_trans)
  show ?thesis using a b by (auto simp: loadProgram_def split: prod.splits option.splits)
qed

lemma quiet_attachGlobal: "quiet_step (snd iw) (snd (snd (attachGlobal E p iw)))"
proof -
  obtain i w where iw: "iw = (i, w)" by (cases iw)
  let ?w0 = "void (CSetupTC p) (void (CSetupTailCalls p) w)"
  let ?a1 = "attach_or_print E (Ckprobes p) (i, ?w0)"
  let ?a2 = "attach_or_print E (Ctracepoints p) (fst (snd ?a1), snd (snd ?a1))"
  let ?a3 = "attach_or_print E (Csockfilters p) (fst (snd ?a2), snd (snd ?a2))"
  have s0: "quiet_step w ?w0" using quiet_void quiet_void by (rule quiet_step_trans)
  have s1: "quiet_step w (snd (snd ?a1))"
    using s0 quiet_attach_or_print [of "(i, ?w0)" E "Ckprobes p"] by (auto intro: quiet_step_trans)
  have s2: "quiet_step w (snd (snd ?a2))"
    using s1 quiet_attach_or_print [of "(fst (snd ?a1), snd (snd ?a1))" E "Ctracepoints p"]
    by (auto intro: quiet_step_trans)
  have s3: "quiet_step w (snd (snd ?a3))"
    using s2 quiet_attach_or_print [of "(fst (snd ?a2), snd (snd ?a2))" E "Csockfilters p"]
    by (auto intro: quiet_step_trans)
  show ?thesis using s1 s2 s3
    by (auto simp: attachGlobal_def iw split: prod.splits option.splits)
qed

lemma flag_loadTracers_loop: "flag_step (snd iw) (snd (snd (loadTracers_loop E ps iw)))"
proof (induction ps arbitrary: iw)
  case Nil
  then show ?case by (simp add: quiet_flag_step quiet_step_refl)
next
  case (Cons p ps)
  let ?w0 = "plog Debug ''loading eBPF program'' (snd iw)"
  let ?l = "loadProgram E p ?w0"
  let ?g = "attachGlobal E p (fst iw, snd ?l)"
  have s0: "flag_step (snd iw) ?w0" by (rule quiet_flag_step [OF quiet_plog])
  have s1: "flag_step (snd iw) (snd ?l)" using s0 flag_loadProgram by (rule flag_step_trans)
  have s2: "flag_step (snd iw) (snd (snd ?g))"
    using s1 quiet_flag_step [OF quiet_attachGlobal [of "(fst iw, snd ?l)" E p]]
    by (auto intro: flag_step_trans)
  have s3: "flag_step (snd iw) (snd (snd (loadTracers_loop E ps (fst (snd ?g), snd (snd ?g)))))"
    using s2 Cons.IH [of "(fst (snd ?g), snd (snd ?g))"] by (auto intro: flag_step_trans)
  show ?case using s1 s2 s3
    by (auto split: prod.splits option.splits)
qed

lemma flag_Init: "flag_step w (snd (Init E pt w))"
proof -
  have a: "flag_step w (snd (snd (loadTracers_loop E (Programs pt) (dummy_instrumenter, w))))"
    using flag_loadTracers_loop [of "(dummy_instrumenter, w)"] by simp
  have b: "flag_step w (void CFlushKernelSpec (snd (snd (loadTracers_loop E (Programs pt) (dummy_instrumenter, w)))))"
    using a quiet_flag_step [OF quiet_void] by (rule flag_step_trans)
  show ?thesis using a b
    by (auto simp: Init_def loadTracers_def split: prod.splits option.splits)
qed

lemma quiet_uprobes_loop: "quiet_step (snd iw) (snd (snd (uprobes_loop E pd ps iw)))"
proof (induction ps arbitrary: iw)
  case Nil
  then show ?case by (simp add: quiet_step_refl)
next
  case (Cons p ps)
  let ?a = "attach_or_print E (Cuprobes pd p) iw"
  have s1: "quiet_step (snd iw) (snd (snd ?a))" by (rule quiet_attach_or_print)
  have s2: "quiet_step (snd iw) (snd (snd (uprobes_loop E pd ps (fst (snd ?a), snd (snd ?a)))))"
    using s1 Cons.IH [of "(fst (snd ?a), snd (snd ?a))"] by (auto intro: quiet_step_trans)
  show ?case using s1 s2 by (auto split: prod.splits option.splits)
qed

lemma quiet_NewExecutable_loop: "quiet_step (snd iw) (snd (snd (NewExecutable_loop E ie ps iw)))"
proof (induction ps arbitrary: iw)
  case Nil
  then show ?case by (simp add: quiet_step_refl)
next
  case (Cons p ps)
  let ?w0 = "void (CRegisterOffsets p (FileInfo ie)) (snd iw)"
  let ?a1 = "attach_or_print E (Cgoprobes p) (fst iw, ?w0)"
  let ?a2 = "attach_or_print E (Cuprobes (Pid (FileInfo ie)) p) (fst (snd ?a1), snd (snd ?a1))"
  have s1: "quiet_step (snd iw) (snd (snd ?a1))"
    using quiet_void quiet_attach_or_print [of "(fst iw, ?w0)" E "Cgoprobes p"]
    by (auto intro: quiet_step_trans)
  have s2: "quiet_step (snd iw) (snd (snd ?a2))"
    using s1 quiet_attach_or_print [of "(fst (snd ?a1), snd (snd ?a1))" E "Cuprobes (Pid (FileInfo ie)) p"]
    by (auto intro: quiet_step_trans)
  have s3: "quiet_step (snd iw) (snd (snd (NewExecutable_loop E ie ps (fst (snd ?a2), snd (snd ?a2)))))"
    using s2 Cons.IH [of "(fst (snd ?a2), snd (snd ?a2))"] by (auto intro: quiet_step_trans)
  show ?case using s1 s2 s3 by (auto split: prod.splits option.splits)
qed

lemma quiet_NewExecutable: "quiet_step (snd ptw) (snd (snd (NewExecutable E ex ie ptw)))"
proof -
  obtain pt w where ptw: "ptw = (pt, w)" by (cases ptw)
  let ?i = "\<lparr>offsets = Offsets ie, exe = Some ex, closables = [], modules = []\<rparr>"
  have "quiet_step w (snd (snd (NewExecutable_loop E ie (Programs pt) (?i, w))))"
    using quiet_NewExecutable_loop [of "(?i, w)"] by simp
  then show ?thesis
    by (auto simp: NewExecutable_def ptw split: prod.splits option.splits)
qed

lemma quiet_NewExecutableInstance:
  "quiet_step (snd ptw) (world_of (map_sum id snd (NewExecutableInstance E ie ptw)))"
proof -
  obtain pt w where ptw: "ptw = (pt, w)" by (cases ptw)
  have a: "quiet_step w w'" if "uprobes_loop E pd (Programs pt) (i, w) = (r, i', w')" for i pd r i' w'
    using quiet_uprobes_loop [of "(i, w)" E pd "Programs pt"] that by simp
  have b: "quiet_step w (world_at (pt_log pt Warn ''Attempted to update non-existent tracer'' w))"
    by (rule quiet_pt_log)
  show ?thesis
    using a b
    by (auto simp: NewExecutableInstance_def ptw world_of_def world_at_def
        split: prod.splits option.splits sum.splits)
qed

lemma quiet_close_closables: "quiet_step w (world_at (close_closables E pt cs w))"
proof -
  obtain new where "trace (world_at (close_closables E pt cs w)) = trace w @ new"
    using close_closables_trace by blast
  then show ?thesis by (simp add: quiet_step_def close_closables_flag)
qed

lemma quiet_UnlinkExecutable: "quiet_step (snd ptw) (world_of (UnlinkExecutable E info ptw))"
proof -
  obtain pt w where ptw: "ptw = (pt, w)" by (cases ptw)
  show ?thesis
  proof (cases "Instrumentables pt (Ino info)")
    case None
    then show ?thesis
      using quiet_pt_log [of w pt Warn "''Unable to find executable to unlink''"]
      by (auto simp: UnlinkExecutable_def ptw world_of_def world_at_def split: sum.splits)
  next
    case (Some i)
    have a: "quiet_step w (world_at (close_closables E pt (closables i) w))"
      by (rule quiet_close_closables)
    have b: "quiet_step w' (unlink_modules ps ms w')" for w' ps ms
      by (simp add: quiet_step_def unlink_modules_trace unlink_modules_flag)
    show ?thesis
    proof (cases "close_closables E pt (closables i) w")
      case (Inl pw)
      then show ?thesis using a Some by (simp add: UnlinkExecutable_def ptw world_of_def world_at_def)
    next
      case (Inr w')
      have "quiet_step w w'" using a Inr by (simp add: world_at_def)
      then have "quiet_step w (unlink_modules (Programs pt) (modules i) w')"
        using b by (rule quiet_step_trans)
      then show ?thesis using Some Inr by (simp add: UnlinkExecutable_def ptw world_of_def)
    qed
  qed
qed

lemma quiet_Run: "quiet_step (snd ptw) (world_of (Run ptw))"
proof -
  obtain pt w where ptw: "ptw = (pt, w)" by (cases ptw)
  have f: "quiet_step w (fold (\<lambda>t. void (CRun t)) ts w)" for ts w
  proof (induction ts arbitrary: w)
    case Nil
    then show ?case by (simp add: quiet_step_refl)
  next
    case (Cons t ts)
    show ?case using quiet_void [of w "CRun t"] Cons.IH [of "void (CRun t) w"]
      by (auto intro: quiet_step_trans)
  qed
  have "quiet_step w (fold (\<lambda>t. void (CRun t)) ts (void c w))" for ts c
    using quiet_void f by (rule quiet_step_trans)
  then show ?thesis
    by (simp add: Run_def ptw pt_log_def Let_def world_of_def)
qed

lemma Run_returns: "\<not> isl (Run ptw)"
  by (cases ptw) (simp add: Run_def pt_log_def Let_def)

lemma quiet_RunUtilityTracer: "quiet_step w (snd (RunUtilityTracer E p w))"
proof -
  let ?w0 = "plog Debug ''loading independent eBPF program'' w"
  obtain r1 w1 where p1: "perform E (CLoad p) ?w0 = (r1, w1)" by (cases "perform E (CLoad p) ?w0")
  obtain r2 w2 where p2: "perform E (CLoadAndAssign p) w1 = (r2, w2)" by (cases "perform E (CLoadAndAssign p) w1")
  obtain r3 i3 w3 where p3: "attach_or_print E (Ckprobes p) (dummy_instrumenter, w2) = (r3, i3, w3)"
    by (cases "attach_or_print E (Ckprobes p) (dummy_instrumenter, w2)")
  obtain r4 i4 w4 where p4: "attach_or_print E (Ctracepoints p) (i3, w3) = (r4, i4, w4)"
    by (cases "attach_or_print E (Ctracepoints p) (i3, w3)")
  have s1: "quiet_step w w1"
    using quiet_step_trans [OF quiet_plog quiet_perform [of ?w0 E "CLoad p"]] by (simp add: p1)
  have s2: "quiet_step w w2"
    using quiet_step_trans [OF s1 quiet_perform [of w1 E "CLoadAndAssign p"]] by (simp add: p2)
  have s3: "quiet_step w w3"
    using quiet_step_trans [OF s2] quiet_attach_or_print [of "(dummy_instrumenter, w2)" E "Ckprobes p"]
    by (simp add: p3)
  have s4: "quiet_step w w4"
    using quiet_step_trans [OF s3] quiet_attach_or_print [of "(i3, w3)" E "Ctracepoints p"]
    by (simp add: p4)
  have v: "quiet_step w (void c w')" if "quiet_step w w'" for c w'
    using that quiet_void by (rule quiet_step_trans)
  show ?thesis
    using s1 s2 s3 s4 v
    by (auto simp: RunUtilityTracer_def p1 p2 p3 p4 split: option.splits)
qed

lemma quiet_operate: "op \<noteq> OpInit \<Longrightarrow> quiet_step (snd ptw) (snd (operate E op ptw))"
  by (cases op)
    (simp_all add: quiet_settle quiet_Run quiet_NewExecutable quiet_NewExecutableInstance
      quiet_UnlinkExecutable quiet_RunUtilityTracer)

lemma quiet_step_step: "op \<noteq> OpInit \<Longrightarrow> quiet_step (snd ptw) (snd (step E op ptw))"
  by (simp add: step_def quiet_operate quiet_step_refl)

lemma flag_step_step: "flag_step (snd ptw) (snd (step E op ptw))"
proof (cases "op = OpInit")
  case True
  then show ?thesis by (simp add: step_def flag_Init quiet_flag_step quiet_step_refl)
next
  case False
  then show ?thesis by (simp add: quiet_flag_step quiet_step_step)
qed

lemma flag_step_run_ops: "flag_step (snd ptw) (snd (run_ops E ops ptw))"
proof (induction ops arbitrary: ptw)
  case Nil
  then show ?case by (simp add: quiet_flag_step quiet_step_refl)
next
  case (Cons op ops)
  show ?case
    using flag_step_trans [OF flag_step_step [of ptw E op] Cons.IH [of "step E op ptw"]] by simp
qed

lemma quiet_step_run_ops: "OpInit \<notin> set ops \<Longrightarrow> quiet_step (snd ptw) (snd (run_ops E ops ptw))"
proof (induction ops arbitrary: ptw)
  case Nil
  then show ?case by (simp add: quiet_step_refl)
next
  case (Cons op ops)
  then have a: "op \<noteq> OpInit" and b: "OpInit \<notin> set ops" by auto
  show ?case
    using quiet_step_trans [OF quiet_step_step [OF a, of ptw E] Cons.IH [OF b, of "step E op ptw"]] by simp
qed

subsection \<open>Claims about loadTracers and the flag\<close>

lemma helper_error_Contains: "Contains helper_error missing_helper"
  by (simp add: helper_error_def missing_helper_def)

lemma other_error_Contains: "\<not> Contains ''operation not permitted'' missing_helper"
  by (simp add: missing_helper_def)





text \<open>
  C6. Along every sequence of operations a flag that is set stays set; a flag that is set at
  the end and was not at the start was written by \<open>Init\<close>, on a kernel load that failed on the
  missing helper; no operation other than \<open>Init\<close> changes the flag.
\<close>

theorem IntegrityModeOverride_monotonic:
  "(IntegrityModeOverride w \<longrightarrow> IntegrityModeOverride (snd (run_ops E ops (pt, w))))
   \<and> (\<not> IntegrityModeOverride v \<and> IntegrityModeOverride (snd (run_ops E ops (pt, v))) \<longrightarrow>
        OpInit \<in> set ops \<and> list_ex helper_failure (emitted v (snd (run_ops E ops (pt, v)))))
   \<and> (op \<noteq> OpInit \<longrightarrow> IntegrityModeOverride (snd (step E op (pt, w))) = IntegrityModeOverride w)"
proof -
  have f: "flag_step w (snd (run_ops E ops (pt, w)))" for w
    using flag_step_run_ops [of "(pt, w)"] by simp
  have q: "OpInit \<notin> set ops \<Longrightarrow> quiet_step w (snd (run_ops E ops (pt, w)))" for w
    using quiet_step_run_ops [of ops "(pt, w)"] by simp
  have s: "op \<noteq> OpInit \<Longrightarrow> quiet_step w (snd (step E op (pt, w)))"
    using quiet_step_step [of op "(pt, w)"] by simp
  show ?thesis
    using f [of w] f [of v] q [of v] s unfolding flag_step_def quiet_step_def by blast
qed

lemma helper_missing_sets_flag:
  "IntegrityModeOverride (snd (run_ops helper_missing ops1 (pt1, w0)))"
  using helper_error_Contains other_error_Contains
  by (simp add: ops1_def pt1_def Init_def loadTracers_def loadProgram_def loadAndAssign_def
      loadSpec_def perform_def Let_def helper_missing_def plog_def pt_log_def void_def w0_def
      attachGlobal_def attach_or_print_def attach_def UnlinkExecutable_def i1_def info1_def
      dummy_instrumenter_def step_def settle_def split: option.splits prod.splits)

theorem IntegrityModeOverride_monotonic_witness:
  "IntegrityModeOverride w_override
   \<and> IntegrityModeOverride (snd (run_ops helper_missing ops1 (pt1, w_override)))
   \<and> \<not> IntegrityModeOverride w0
   \<and> IntegrityModeOverride (snd (run_ops helper_missing ops1 (pt1, w0)))
   \<and> OpInit \<in> set ops1
   \<and> list_ex helper_failure (emitted w0 (snd (run_ops helper_missing ops1 (pt1, w0))))
   \<and> OpUnlinkExecutable info1 \<noteq> OpInit
   \<and> IntegrityModeOverride (snd (step helper_missing (OpUnlinkExecutable info1) (pt1, w_override)))"
  using IntegrityModeOverride_monotonic [of w_override helper_missing ops1 pt1 w0 "OpUnlinkExecutable info1"]
    helper_missing_sets_flag
  by (simp add: w0_def w_override_def)

subsection \<open>NewExecutable on an error\<close>

lemma adds_refl: "adds P w w"
  by (simp add: adds_def calls_def emitted_def)

lemma adds_trans:
  assumes "adds P w w'" and "adds P w' w''"
  shows "adds P w w''"
proof -
  have p: "prefix (trace w) (trace w')" "prefix (trace w') (trace w'')"
    using assms by (simp_all add: adds_def)
  have "calls w w'' = calls w w' @ calls w' w''"
    using emitted_append [OF p] by (simp add: calls_def)
  moreover have "prefix (trace w) (trace w'')" using p by (rule prefix_order.trans)
  ultimately show ?thesis using assms by (simp add: adds_def)
qed

lemma adds_perform: "P c \<Longrightarrow> adds P w (snd (perform E c w))"
  by (simp add: adds_def perform_def Let_def calls_def emitted_def)

lemma adds_void: "P c \<Longrightarrow> adds P w (void c w)"
  by (simp add: adds_def void_def calls_def emitted_def)

lemma adds_attach_or_print:
  assumes "P c" and "\<And>e. P (CprintVerifierErrorInfo e)"
  shows "adds P (snd iw) (snd (snd (attach_or_print E c iw)))"
proof -
  obtain i w where iw: "iw = (i, w)" by (cases iw)
  have a: "adds P w (snd (perform E c w))" using assms(1) by (rule adds_perform)
  have b: "adds P w (void (CprintVerifierErrorInfo e) (snd (perform E c w)))" for e
  proof -
    have "adds P (snd (perform E c w)) (void (CprintVerifierErrorInfo e) (snd (perform E c w)))"
      using assms(2) [of e] by (rule adds_void)
    with a show ?thesis by (rule adds_trans)
  qed
  show ?thesis using a b
    by (auto simp: attach_or_print_def attach_def iw split: prod.splits option.splits)
qed

lemma adds_NewExecutable_loop:
  "adds (\<lambda>c. \<not> isClose c) (snd iw) (snd (snd (NewExecutable_loop E ie ps iw)))"
proof (induction ps arbitrary: iw)
  case Nil
  then show ?case by (simp add: adds_refl)
next
  case (Cons p ps)
  let ?P = "\<lambda>c. \<not> isClose c"
  let ?w0 = "void (CRegisterOffsets p (FileInfo ie)) (snd iw)"
  let ?a1 = "attach_or_print E (Cgoprobes p) (fst iw, ?w0)"
  let ?a2 = "attach_or_print E (Cuprobes (Pid (FileInfo ie)) p) (fst (snd ?a1), snd (snd ?a1))"
  have s0: "adds ?P (snd iw) ?w0" by (simp add: adds_void)
  have s1: "adds ?P (snd iw) (snd (snd ?a1))"
    using s0 adds_attach_or_print [of ?P "Cgoprobes p" "(fst iw, ?w0)" E]
    by (auto intro: adds_trans)
  have s2: "adds ?P (snd iw) (snd (snd ?a2))"
    using s1 adds_attach_or_print [of ?P "Cuprobes (Pid (FileInfo ie)) p" "(fst (snd ?a1), snd (snd ?a1))" E]
    by (auto intro: adds_trans)
  have s3: "adds ?P (snd iw) (snd (snd (NewExecutable_loop E ie ps (fst (snd ?a2), snd (snd ?a2)))))"
    using s2 Cons.IH [of "(fst (snd ?a2), snd (snd ?a2))"] by (auto intro: adds_trans)
  show ?case using s1 s2 s3 by (auto split: prod.splits option.splits)
qed

text \<open>
  \<open>NewExecutable\<close> never calls \<open>Close\<close>, and when it returns an error the tracer is as it
  was before the call.
\<close>

lemma NewExecutable_closes_nothing:
  "list_all (\<lambda>c. \<not> isClose c) (calls w (snd (snd (NewExecutable E ex ie (pt, w)))))"
proof -
  let ?i = "\<lparr>offsets = Offsets ie, exe = Some ex, closables = [], modules = []\<rparr>"
  have "adds (\<lambda>c. \<not> isClose c) w (snd (snd (NewExecutable_loop E ie (Programs pt) (?i, w))))"
    using adds_NewExecutable_loop [of "(?i, w)"] by simp
  then show ?thesis
    by (auto simp: NewExecutable_def adds_def split: prod.splits option.splits)
qed

lemma NewExecutable_error_keeps_map:
  "fst (NewExecutable E ex ie (pt, w)) \<noteq> None \<Longrightarrow> fst (snd (NewExecutable E ex ie (pt, w))) = pt"
  by (auto simp: NewExecutable_def split: prod.splits option.splits)

text \<open>
  C3. \<open>NewExecutable\<close> with two programs, where the Go probes of the first program attach and
  append the release handle 5 and its uprobes are then refused: the error is returned, the
  instrumenter that holds handle 5 is not stored in the map, which is as before the call, and
  the \<open>UnlinkExecutable\<close> that follows for the same inode returns without a call of \<open>Close\<close>
  on handle 5; nor is there such a call when the logger of the tracer is not set.
\<close>

theorem NewExecutable_error_leaves_handles_unregistered:
  "fst (NewExecutable uprobes_fail 9 ie1 (pt0, w0)) = Some ''attach failed''
   \<and> closables (fst (snd (NewExecutable_loop uprobes_fail ie1 (Programs pt0)
         (\<lparr>offsets = Offsets ie1, exe = Some 9, closables = [], modules = []\<rparr>, w0)))) = [5]
   \<and> fst (snd (NewExecutable uprobes_fail 9 ie1 (pt0, w0))) = pt0
   \<and> \<not> isl (UnlinkExecutable uprobes_fail (FileInfo ie1)
         (snd (NewExecutable uprobes_fail 9 ie1 (pt0, w0))))
   \<and> CClose 5 \<notin> set (calls w0 (world_of (UnlinkExecutable uprobes_fail (FileInfo ie1)
         (snd (NewExecutable uprobes_fail 9 ie1 (pt0, w0))))))
   \<and> CClose 5 \<notin> set (calls w0 (world_of (UnlinkExecutable uprobes_fail (FileInfo ie1)
         (snd (NewExecutable uprobes_fail 9 ie1 (pt0\<lparr>log := None\<rparr>, w0))))))"
  by (simp add: NewExecutable_def attach_or_print_def attach_def perform_def Let_def void_def
      uprobes_fail_def ie1_def info1_def pt0_def w0_def UnlinkExecutable_def pt_log_def
      calls_def emitted_def world_of_def)

section \<open>Properties of the Go tracer\<close>

lemma fold_set_optional_other:
  "s \<notin> set ks \<Longrightarrow> map_of (fold (set_optional offs) ks c) s = map_of c s"
  by (induction ks arbitrary: c) (auto simp: set_optional_def Let_def update_conv')

lemma fold_set_required_other:
  "s \<notin> set ks \<Longrightarrow> map_of (fold (set_required offs) ks c) s = map_of c s"
  by (induction ks arbitrary: c) (auto simp: set_required_def update_conv')

lemma set_optional_same:
  "map_of (set_optional offs s c) s
     = Some (if field offs s = nil then Uint64 0xffffffffffffffff else field offs s)"
  by (simp add: set_optional_def Let_def update_conv')

lemma fold_set_optional_same:
  "s \<in> set ks \<Longrightarrow> map_of (fold (set_optional offs) ks c) s
     = Some (if field offs s = nil then Uint64 0xffffffffffffffff else field offs s)"
proof (induction ks arbitrary: c)
  case Nil
  then show ?case by simp
next
  case (Cons k ks)
  show ?case
  proof (cases "s \<in> set ks")
    case True
    then show ?thesis using Cons.IH by simp
  next
    case False
    then have "s = k" using Cons.prems by simp
    then show ?thesis using False by (simp add: fold_set_optional_other set_optional_same)
  qed
qed

lemma set_required_same: "map_of (set_required offs s c) s = Some (field offs s)"
  by (simp add: set_required_def update_conv')

lemma fold_set_required_same:
  "s \<in> set ks \<Longrightarrow> map_of (fold (set_required offs) ks c) s = Some (field offs s)"
proof (induction ks arbitrary: c)
  case Nil
  then show ?case by simp
next
  case (Cons k ks)
  show ?case
  proof (cases "s \<in> set ks")
    case True
    then show ?thesis using Cons.IH by simp
  next
    case False
    then have "s = k" using Cons.prems by simp
    then show ?thesis using False by (simp add: fold_set_required_other set_required_same)
  qed
qed

lemma required_not_optional: "s \<in> set required_keys \<Longrightarrow> s \<notin> set optional_keys"
  by (auto simp: required_keys_def optional_keys_def)

lemma RewriteConstants_nil:
  "map_of constants s = Some nil \<Longrightarrow> RewriteConstants constants \<noteq> None"
proof -
  assume "map_of constants s = Some nil"
  then have "(s, nil) \<in> set constants" by (rule map_of_SomeD)
  then have "filter (\<lambda>kv. snd kv = nil) constants \<noteq> []"
    by (force simp: filter_empty_conv)
  then show ?thesis by (simp add: RewriteConstants_def split: list.splits)
qed

text \<open>
  C4. For every table of field offsets: an optional key that the table does not hold is
  mapped by \<open>Constants\<close> to the 64-bit value of all ones; a required key that the table does
  not hold is passed on without a value, and the load of the specification fails.
\<close>

theorem Constants_optional_sentinel_required_fails:
  "(FieldOffsets offs s = None \<and> s \<in> set optional_keys \<longrightarrow>
       map_of (Constants sz cfg offs) s = Some (Uint64 0xFFFFFFFFFFFFFFFF))
   \<and> (FieldOffsets offs r = None \<and> r \<in> set required_keys \<longrightarrow>
       map_of (Constants sz cfg offs) r = Some nil \<and> loadSpec_go loaded sz cfg offs \<noteq> None)"
proof -
  have opt: "map_of (Constants sz cfg offs) s = Some (Uint64 0xFFFFFFFFFFFFFFFF)"
    if "FieldOffsets offs s = None" and "s \<in> set optional_keys"
    using that by (simp add: Constants_def fold_set_optional_same field_def)
  have req: "map_of (Constants sz cfg offs) r = Some nil"
    if "FieldOffsets offs r = None" and "r \<in> set required_keys"
    using that required_not_optional [OF that(2)]
    by (simp add: Constants_def fold_set_optional_other fold_set_required_same field_def)
  have fail: "loadSpec_go loaded sz cfg offs \<noteq> None"
    if "FieldOffsets offs r = None" and "r \<in> set required_keys"
    using RewriteConstants_nil [OF req [OF that]]
    by (auto simp: loadSpec_go_def split: option.splits)
  show ?thesis using opt req fail by blast
qed

theorem Constants_optional_sentinel_required_fails_witness:
  "FieldOffsets offsets1 ''cc_next_stream_id_pos'' = None
   \<and> ''cc_next_stream_id_pos'' \<in> set optional_keys
   \<and> map_of (Constants 100 cfg1 offsets1) ''cc_next_stream_id_pos'' = Some (Uint64 0xFFFFFFFFFFFFFFFF)
   \<and> FieldOffsets offsets1 ''path_ptr_pos'' = None
   \<and> ''path_ptr_pos'' \<in> set required_keys
   \<and> loadSpec_go None 100 cfg1 offsets1 \<noteq> None"
  using Constants_optional_sentinel_required_fails
    [of offsets1 "''cc_next_stream_id_pos''" 100 cfg1 "''path_ptr_pos''" None]
  by (simp add: offsets1_def optional_keys_def required_keys_def)

lemma GoProbes_base_no_propagation:
  "map_of GoProbes_base ''net/http.Header.writeSubset'' = None"
  "map_of GoProbes_base ''golang.org/x/net/http2.(*Framer).WriteHeaders'' = None"
  "map_of GoProbes_base ''net/http.(*http2Framer).WriteHeaders'' = None"
  by (simp_all add: GoProbes_base_def)

text \<open>With the flag unset and a kernel that supports it, the three programs are in the table.\<close>

lemma GoProbes_with_propagation:
  assumes "\<not> IntegrityModeOverride w"
  shows "GoProbes True w ''net/http.Header.writeSubset'' = Some \<lparr>Start = Some UprobeWriteSubset, End = None\<rparr>"
    and "GoProbes True w ''golang.org/x/net/http2.(*Framer).WriteHeaders''
          = Some \<lparr>Start = Some UprobeHttp2FramerWriteHeaders, End = Some UprobeHttp2FramerWriteHeadersReturns\<rparr>"
    and "GoProbes True w ''net/http.(*http2Framer).WriteHeaders''
          = Some \<lparr>Start = Some UprobeHttp2FramerWriteHeaders, End = Some UprobeHttp2FramerWriteHeadersReturns\<rparr>"
    and "fst (Load cfg True w) = (if BpfDebug cfg then loadBpf_tp_debug else loadBpf_tp)"
  using assms by (simp_all add: GoProbes_def Load_def supportsContextPropagation_def)

text \<open>
  C5. Once the flag is set, in the world reached by any further sequence of operations the
  probe table of the Go tracer has no entry for \<open>net/http.Header.writeSubset\<close> nor for the two
  \<open>WriteHeaders\<close> symbols of the framer, and \<open>Load\<close> selects \<open>loadBpf\<close>, or \<open>loadBpf_debug\<close>
  in debug mode: one of the two artifacts without context propagation.
\<close>

theorem override_removes_context_propagation:
  assumes "IntegrityModeOverride w"
  shows "GoProbes ks (snd (run_ops E ops (pt, w))) ''net/http.Header.writeSubset'' = None
       \<and> GoProbes ks (snd (run_ops E ops (pt, w))) ''golang.org/x/net/http2.(*Framer).WriteHeaders'' = None
       \<and> GoProbes ks (snd (run_ops E ops (pt, w))) ''net/http.(*http2Framer).WriteHeaders'' = None
       \<and> fst (Load cfg ks (snd (run_ops E ops (pt, w)))) = (if BpfDebug cfg then loadBpf_debug else loadBpf)"
proof -
  have "flag_step w (snd (run_ops E ops (pt, w)))" using flag_step_run_ops [of "(pt, w)"] by simp
  then have "IntegrityModeOverride (snd (run_ops E ops (pt, w)))" using assms by (simp add: flag_step_def)
  then show ?thesis
    by (simp add: GoProbes_def Load_def supportsContextPropagation_def GoProbes_base_no_propagation)
qed

theorem override_removes_context_propagation_witness:
  "IntegrityModeOverride w_override
   \<and> GoProbes True (snd (run_ops helper_missing ops1 (pt1, w_override))) ''net/http.Header.writeSubset'' = None
   \<and> fst (Load cfg1 True (snd (run_ops helper_missing ops1 (pt1, w_override)))) = loadBpf"
  using override_removes_context_propagation [of w_override True helper_missing ops1 pt1 cfg1]
  by (simp add: w_override_def cfg1_def)

section \<open>Properties of the reporter\<close>

text \<open>
  C9. \<open>TracerFlush n\<close> adds one observation, the \<open>float64\<close> of \<open>n\<close>, to the histogram of flushes
  and leaves its buckets as they are; the buckets of the histogram that \<open>NewPrometheusReporter\<close>
  builds are 0, 10, 20, 40, 80, 160, 320 whatever the configuration holds.
\<close>

theorem TracerFlush_observes_once: 
  "observed (tracerFlushes (TracerFlush float64 n p)) = observed (tracerFlushes p) @ [float64 n]
   \<and> Buckets (tracerFlushes (TracerFlush float64 n p)) = Buckets (tracerFlushes p)
   \<and> Buckets (tracerFlushes (NewPrometheusReporter float64 cfg)) = map float64 [0, 10, 20, 40, 80, 160, 320]"
  by (simp add: TracerFlush_def Observe_def NewPrometheusReporter_def pipelineBufferLengths_def)

end
